theory Spec2Isabelle
  imports Complex_Main
begin

section \<open>Shared data model\<close>

text \<open>
  Both scripts read the same three inputs: the node table (node id to coordinate triple),
  the member table (element id to the pair of its end nodes) and the results dataset.
  Python floats are embedded as real numbers, so every arithmetic statement below is one
  of exact arithmetic. A failed dictionary or dataset lookup is a value of type
  \<open>error\<close>.
\<close>

datatype error = KeyError | ZeroDivisionError | ValueError | IndexError

type_synonym coord = "real \<times> real \<times> real"

type_synonym node_table = "int \<rightharpoonup> coord"

text \<open>
  The dataset is a dense array with two labelled axes. Selecting an element id or a
  component name that is not among the labels of its axis raises KeyError.
\<close>

record dataset =
  Element :: "int list"
  Component :: "string list"
  forces :: "int \<Rightarrow> string \<Rightarrow> real"

definition sel :: "dataset \<Rightarrow> int \<Rightarrow> string \<Rightarrow> error + real" where
  "sel ds ele comp_name =
     (if ele \<in> set (Element ds) \<and> comp_name \<in> set (Component ds)
      then Inr (forces ds ele comp_name) else Inl KeyError)"

text \<open>What the scripts print, as far as the loops modelled here are concerned.\<close>

datatype message =
    Connectivity_warning int
  | Connectivity_verified
  | Error_reading_element int
  | Available_components "string list"
  | Extraction_completed
  | Number_of_points nat
  | Could_not_process int error

section \<open>The 2D script (TASK_1.py)\<close>

definition central_elements :: "int list" where
  "central_elements = [15, 24, 33, 42, 51, 60, 69, 78, 83]"

text \<open>\<open>enumerate\<close> pairs every item with its index.\<close>

definition enumerate_list :: "'a list \<Rightarrow> (nat \<times> 'a) list" where
  "enumerate_list xs = List.enumerate 0 xs"

subsection \<open>Continuity check\<close>

text \<open>
  The loop of lines 36 to 41. The console is threaded through; a KeyError of
  \<open>members[...]\<close> leaves the loop with what was printed so far.
\<close>

fun continuity_loop ::
  "(int \<rightharpoonup> int \<times> int) \<Rightarrow> int list \<Rightarrow> (nat \<times> int) list \<Rightarrow> message list
     \<Rightarrow> message list \<times> (error + unit)" where
  "continuity_loop members elems [] out = (out, Inr ())"
| "continuity_loop members elems ((i, ele) # rest) out =
     (case members ele of
        None \<Rightarrow> (out, Inl KeyError)
      | Some (ni, nj) \<Rightarrow>
          if i > 0 then
            (if i - 1 < length elems then
               (case members (elems ! (i - 1)) of
                  None \<Rightarrow> (out, Inl KeyError)
                | Some prev \<Rightarrow>
                    (let prev_nj = snd prev in
                     if ni \<noteq> prev_nj
                     then continuity_loop members elems rest (out @ [Connectivity_warning ele])
                     else continuity_loop members elems rest out))
             else (out, Inl IndexError))
          else continuity_loop members elems rest out)"

definition continuity_check ::
  "(int \<rightharpoonup> int \<times> int) \<Rightarrow> int list \<Rightarrow> message list \<Rightarrow> message list \<times> (error + unit)" where
  "continuity_check members elems out =
     continuity_loop members elems (enumerate_list elems) out"

subsection \<open>Extraction of the profile\<close>

record profile =
  positions :: "real list"
  bending_moments :: "real list"
  shear_forces :: "real list"

text \<open>The four reads inside the \<open>try\<close> of lines 67 to 71, in the order of the source.\<close>

definition read_forces :: "dataset \<Rightarrow> int \<Rightarrow> error + (real \<times> real \<times> real \<times> real)" where
  "read_forces ds ele =
     (case sel ds ele ''Mz_i'' of Inl e \<Rightarrow> Inl e | Inr mz_i \<Rightarrow>
      (case sel ds ele ''Mz_j'' of Inl e \<Rightarrow> Inl e | Inr mz_j \<Rightarrow>
       (case sel ds ele ''Vy_i'' of Inl e \<Rightarrow> Inl e | Inr vy_i \<Rightarrow>
        (case sel ds ele ''Vy_j'' of Inl e \<Rightarrow> Inl e | Inr vy_j \<Rightarrow>
           Inr (mz_i, mz_j, vy_i, vy_j)))))"

fun extraction_loop ::
  "(int \<rightharpoonup> int \<times> int) \<Rightarrow> node_table \<Rightarrow> dataset \<Rightarrow> (nat \<times> int) list
     \<Rightarrow> message list \<Rightarrow> profile \<Rightarrow> message list \<times> (error + profile)" where
  "extraction_loop members nodes ds [] out pr = (out, Inr pr)"
| "extraction_loop members nodes ds ((idx, ele) # rest) out pr =
     (case members ele of
        None \<Rightarrow> (out, Inl KeyError)
      | Some (node_i, node_j) \<Rightarrow>
     (case nodes node_i of
        None \<Rightarrow> (out, Inl KeyError)
      | Some coord_i \<Rightarrow>
     (case nodes node_j of
        None \<Rightarrow> (out, Inl KeyError)
      | Some coord_j \<Rightarrow>
     (let pos_i = fst coord_i; pos_j = fst coord_j in
     (case read_forces ds ele of
        Inl e \<Rightarrow>
          (out @ [Error_reading_element ele, Available_components (Component ds)], Inl e)
      | Inr (mz_i, mz_j, vy_i, vy_j) \<Rightarrow>
          if idx = 0 then
            extraction_loop members nodes ds rest out
              \<lparr>positions = positions pr @ [pos_i, pos_j],
               bending_moments = bending_moments pr @ [mz_i, mz_j],
               shear_forces = shear_forces pr @ [vy_i, vy_j]\<rparr>
          else
            extraction_loop members nodes ds rest out
              \<lparr>positions = positions pr @ [pos_j],
               bending_moments = bending_moments pr @ [mz_j],
               shear_forces = shear_forces pr @ [vy_j]\<rparr>)))))"

definition extraction ::
  "(int \<rightharpoonup> int \<times> int) \<Rightarrow> node_table \<Rightarrow> dataset \<Rightarrow> int list \<Rightarrow> message list
     \<Rightarrow> message list \<times> (error + profile)" where
  "extraction members nodes ds elems out =
     extraction_loop members nodes ds (enumerate_list elems) out
       \<lparr>positions = [], bending_moments = [], shear_forces = []\<rparr>"

text \<open>
  The script up to line 91: the continuity check, then the extraction. An exception in
  either ends the run.
\<close>

definition task_1 ::
  "(int \<rightharpoonup> int \<times> int) \<Rightarrow> node_table \<Rightarrow> dataset \<Rightarrow> int list
     \<Rightarrow> message list \<times> (error + profile)" where
  "task_1 members nodes ds elems =
     (case continuity_check members elems [] of
        (out, Inl e) \<Rightarrow> (out, Inl e)
      | (out, Inr _) \<Rightarrow>
          (case extraction members nodes ds elems (out @ [Connectivity_verified]) of
             (out', Inl e) \<Rightarrow> (out', Inl e)
           | (out', Inr pr) \<Rightarrow>
               (out' @ [Extraction_completed, Number_of_points (length (positions pr))],
                Inr pr)))"

section \<open>The 3D script (3D_task_2.py)\<close>

subsection \<open>The girder table and the reverse lookup\<close>

record girder_info =
  elements :: "int list"
  node_ids :: "int list"
  color :: string

definition girders :: "(string \<times> girder_info) list" where
  "girders =
     [(''Girder 1'', \<lparr>elements = [13, 22, 31, 40, 49, 58, 67, 76, 81],
                      node_ids = [1, 11, 16, 21, 26, 31, 36, 41, 46, 6],
                      color = ''rgb(100, 149, 237)''\<rparr>),
      (''Girder 2'', \<lparr>elements = [14, 23, 32, 41, 50, 59, 68, 77, 82],
                      node_ids = [2, 12, 17, 22, 27, 32, 37, 42, 47, 7],
                      color = ''rgb(127, 255, 212)''\<rparr>),
      (''Girder 3'', \<lparr>elements = [15, 24, 33, 42, 51, 60, 69, 78, 83],
                      node_ids = [3, 13, 18, 23, 28, 33, 38, 43, 48, 8],
                      color = ''rgb(144, 238, 144)''\<rparr>),
      (''Girder 4'', \<lparr>elements = [16, 25, 34, 43, 52, 61, 70, 79, 84],
                      node_ids = [4, 14, 19, 24, 29, 34, 39, 44, 49, 9],
                      color = ''rgb(255, 218, 120)''\<rparr>),
      (''Girder 5'', \<lparr>elements = [17, 26, 35, 44, 53, 62, 71, 80, 85],
                      node_ids = [5, 15, 20, 25, 30, 35, 40, 45, 50, 10],
                      color = ''rgb(240, 128, 128)''\<rparr>)]"

text \<open>Lines 90 to 93: the nested loops that fill \<open>element_to_girder\<close>.\<close>

definition element_to_girder :: "int \<rightharpoonup> string" where
  "element_to_girder =
     fold (\<lambda>(girder_name, girder_info) m.
             fold (\<lambda>eid m'. m'(eid \<mapsto> girder_name)) (elements girder_info) m)
          girders Map.empty"

text \<open>\<open>element_to_girder.get(eid, 'Other Elements')\<close>\<close>

definition girder_name_of :: "int \<Rightarrow> string" where
  "girder_name_of eid =
     (case element_to_girder eid of Some g \<Rightarrow> g | None \<Rightarrow> ''Other Elements'')"

subsection \<open>Components and the global scale\<close>

definition components_of :: "string \<Rightarrow> string \<times> string" where
  "components_of result_type =
     (if result_type = ''BMD'' then (''Mz_i'', ''Mz_j'') else (''Vy_i'', ''Vy_j''))"

text \<open>
  Lines 114 to 121. The bare \<open>except\<close> skips an element as soon as one of its two
  reads fails, before anything of it is appended.
\<close>

fun collect_values :: "dataset \<Rightarrow> string \<Rightarrow> string \<Rightarrow> int list \<Rightarrow> real list \<Rightarrow> real list" where
  "collect_values ds comp_i comp_j [] all_values = all_values"
| "collect_values ds comp_i comp_j (eid # rest) all_values =
     (case sel ds eid comp_i of
        Inl _ \<Rightarrow> collect_values ds comp_i comp_j rest all_values
      | Inr a \<Rightarrow>
          (case sel ds eid comp_j of
             Inl _ \<Rightarrow> collect_values ds comp_i comp_j rest all_values
           | Inr b \<Rightarrow>
               (let val_i = \<bar>a\<bar>; val_j = \<bar>b\<bar>
                in collect_values ds comp_i comp_j rest (all_values @ [val_i, val_j]))))"

text \<open>Python's \<open>max\<close> and \<open>min\<close> of a list raise ValueError on the empty list.\<close>

definition py_max :: "real list \<Rightarrow> error + real" where
  "py_max xs = (case xs of [] \<Rightarrow> Inl ValueError | x # rest \<Rightarrow> Inr (fold max rest x))"

definition py_min :: "real list \<Rightarrow> error + real" where
  "py_min xs = (case xs of [] \<Rightarrow> Inl ValueError | x # rest \<Rightarrow> Inr (fold min rest x))"

text \<open>Line 123: \<open>max(all_values) if all_values else 1.0\<close>\<close>

definition max_val_of :: "real list \<Rightarrow> real" where
  "max_val_of all_values =
     (case all_values of [] \<Rightarrow> 1.0 | x # rest \<Rightarrow> fold max rest x)"

text \<open>Lines 124 to 128.\<close>

definition scale_factor :: "string \<Rightarrow> real list \<Rightarrow> real" where
  "scale_factor result_type all_values =
     (let max_val = max_val_of all_values;
          scale = (if max_val > 0 then 1.8 / max_val else 1.0)
      in if result_type = ''SFD'' then scale * 3.0 else scale)"

subsection \<open>The figure under construction\<close>

datatype trace =
    Scatter3d (tr_x: "real list") (tr_y: "real list") (tr_z: "real list")
              (line_width: real) (tr_name: string) (legendgroup: string)
  | Mesh3d (tr_x: "real list") (tr_y: "real list") (tr_z: "real list")
           (mesh_i: "nat list") (mesh_j: "nat list") (mesh_k: "nat list")
           (tr_name: string) (legendgroup: string) (showlegend: bool)
           (intensity: "real list") (cmin: real) (cmax: real) (showscale: bool)
           (hover_element: int)

record builder =
  fig_data :: "trace list"
  girder_traces :: "string \<rightharpoonup> nat list"
  shown_in_legend :: "string set"
  element_count :: nat
  console :: "message list"

text \<open>Lines 146 to 149.\<close>

definition initial_girder_traces :: "string \<rightharpoonup> nat list" where
  "initial_girder_traces =
     (fold (\<lambda>(gname, ginfo) m. m(gname \<mapsto> [])) girders Map.empty)(''Other Elements'' \<mapsto> [])"

definition initial_builder :: builder where
  "initial_builder =
     \<lparr>fig_data = [], girder_traces = initial_girder_traces, shown_in_legend = {},
      element_count = 0, console = []\<rparr>"

text \<open>\<open>fig.add_trace(trace)\<close>\<close>

definition add_trace :: "trace \<Rightarrow> builder \<Rightarrow> builder" where
  "add_trace tr s = s\<lparr>fig_data := fig_data s @ [tr]\<rparr>"

text \<open>
  \<open>girder_traces[girder_name].append(len(fig.data) - 1)\<close>: a KeyError of the
  subscript leaves the figure as it was, with the trace already added.
\<close>

definition record_trace :: "string \<Rightarrow> builder \<Rightarrow> (error \<times> builder) + builder" where
  "record_trace girder_name s =
     (case girder_traces s girder_name of
        None \<Rightarrow> Inl (KeyError, s)
      | Some idxs \<Rightarrow>
          Inr (s\<lparr>girder_traces :=
                   (girder_traces s)(girder_name \<mapsto> idxs @ [length (fig_data s) - 1])\<rparr>))"

subsection \<open>Centerlines\<close>

text \<open>Lines 155 to 178. Nothing here is inside a \<open>try\<close>.\<close>

fun centerline_loop :: "node_table \<Rightarrow> (int \<times> int \<times> int) list \<Rightarrow> builder \<Rightarrow> error + builder" where
  "centerline_loop nodes [] s = Inr s"
| "centerline_loop nodes ((eid, ni, nj) # rest) s =
     (case nodes ni of
        None \<Rightarrow> Inl KeyError
      | Some (x1, y1, z1) \<Rightarrow>
     (case nodes nj of
        None \<Rightarrow> Inl KeyError
      | Some (x2, y2, z2) \<Rightarrow>
     (let girder_name = girder_name_of eid;
          trace = Scatter3d [x1, x2] [y1, y2] [z1, z2] 6 girder_name girder_name
      in (case record_trace girder_name (add_trace trace s) of
            Inl (e, _) \<Rightarrow> Inl e
          | Inr s' \<Rightarrow> centerline_loop nodes rest s'))))"

subsection \<open>The ribbon of one element\<close>

text \<open>\<open>range(n)\<close> is empty for a negative \<open>n\<close>.\<close>

definition py_range :: "int \<Rightarrow> nat list" where
  "py_range n = [0..<nat n]"

text \<open>The expression \<open>a + t * (b - a)\<close> of lines 208 to 212.\<close>

definition interpolate :: "real \<Rightarrow> real \<Rightarrow> real \<Rightarrow> real" where
  "interpolate a b t = a + t * (b - a)"

text \<open>
  Lines 205 to 217. \<open>i / segments\<close> raises ZeroDivisionError when \<open>segments\<close>
  is zero.
\<close>

fun mesh_points_loop ::
  "coord \<Rightarrow> coord \<Rightarrow> real \<Rightarrow> real \<Rightarrow> real \<Rightarrow> int \<Rightarrow> nat list
     \<Rightarrow> real list \<times> real list \<times> real list \<times> real list
     \<Rightarrow> error + (real list \<times> real list \<times> real list \<times> real list)" where
  "mesh_points_loop p1 p2 v_i v_j scale segments [] acc = Inr acc"
| "mesh_points_loop (x1, y1, z1) (x2, y2, z2) v_i v_j scale segments (i # rest) (X, Y, Z, C) =
     (if segments = 0 then Inl ZeroDivisionError
      else
        (let t = real i / real_of_int segments;
             x = interpolate x1 x2 t;
             y0 = interpolate y1 y2 t;
             z = interpolate z1 z2 t;
             v = interpolate v_i v_j t
         in mesh_points_loop (x1, y1, z1) (x2, y2, z2) v_i v_j scale segments rest
              (X @ [x, x], Y @ [y0, y0 + v * scale], Z @ [z, z], C @ [\<bar>v\<bar>, \<bar>v\<bar>])))"

definition mesh_points ::
  "coord \<Rightarrow> coord \<Rightarrow> real \<Rightarrow> real \<Rightarrow> real \<Rightarrow> int
     \<Rightarrow> error + (real list \<times> real list \<times> real list \<times> real list)" where
  "mesh_points p1 p2 v_i v_j scale segments =
     mesh_points_loop p1 p2 v_i v_j scale segments (py_range (segments + 1)) ([], [], [], [])"

text \<open>Lines 220 to 225.\<close>

fun triangle_loop ::
  "nat list \<Rightarrow> nat list \<times> nat list \<times> nat list \<Rightarrow> nat list \<times> nat list \<times> nat list" where
  "triangle_loop [] acc = acc"
| "triangle_loop (i # rest) (I, J, K) =
     (let b = i * 2
      in triangle_loop rest (I @ [b, b + 1], J @ [b + 1, b + 3], K @ [b + 2, b + 2]))"

definition triangles :: "int \<Rightarrow> nat list \<times> nat list \<times> nat list" where
  "triangles segments = triangle_loop (py_range segments) ([], [], [])"

subsection \<open>Surfaces and boundary edges\<close>

text \<open>
  The body of the \<open>try\<close> of lines 196 to 329. An exception carries the builder as it
  was when the exception was raised, since the handler goes on from there.
\<close>

definition and_then ::
  "(error \<times> builder) + builder \<Rightarrow> (builder \<Rightarrow> (error \<times> builder) + builder)
     \<Rightarrow> (error \<times> builder) + builder" where
  "and_then r f = (case r of Inl x \<Rightarrow> Inl x | Inr s \<Rightarrow> f s)"

text \<open>Lines 228 to 230.\<close>

definition mark_legend :: "string \<Rightarrow> builder \<Rightarrow> builder" where
  "mark_legend girder_name s =
     (if girder_name \<notin> shown_in_legend s
      then s\<lparr>shown_in_legend := insert girder_name (shown_in_legend s)\<rparr>
      else s)"

text \<open>Lines 233 to 327: the mesh and its three boundary edges, each added and recorded.\<close>

definition add_surface ::
  "string \<Rightarrow> int \<Rightarrow> coord \<Rightarrow> coord \<Rightarrow> real \<Rightarrow> real \<Rightarrow> real \<Rightarrow> bool
     \<Rightarrow> real list \<times> real list \<times> real list \<times> real list
     \<Rightarrow> nat list \<times> nat list \<times> nat list \<Rightarrow> real \<Rightarrow> real
     \<Rightarrow> builder \<Rightarrow> (error \<times> builder) + builder" where
  "add_surface girder_name eid p1 p2 v_i v_j scale show_in_legend pts tris lo hi s1 =
     (case p1 of (x1, y1, z1) \<Rightarrow>
     (case p2 of (x2, y2, z2) \<Rightarrow>
     (case pts of (X, Y, Z, C) \<Rightarrow>
     (case tris of (I, J, K) \<Rightarrow>
        and_then (record_trace girder_name
          (add_trace (Mesh3d X Y Z I J K girder_name girder_name show_in_legend C lo hi
                        (element_count s1 = 0) eid) s1)) (\<lambda>s2.
        and_then (record_trace girder_name
          (add_trace (Scatter3d [x1, x1] [y1, y1 + v_i * scale] [z1, z1] 4
                        girder_name girder_name) s2)) (\<lambda>s3.
        and_then (record_trace girder_name
          (add_trace (Scatter3d [x2, x2] [y2, y2 + v_j * scale] [z2, z2] 2
                        girder_name girder_name) s3)) (\<lambda>s4.
        and_then (record_trace girder_name
          (add_trace (Scatter3d [x1, x2] [y1 + v_i * scale, y2 + v_j * scale] [z1, z2] 1.5
                        girder_name girder_name) s4)) (\<lambda>s5.
        Inr (s5\<lparr>element_count := element_count s5 + 1\<rparr>)))))))))"

definition surface_body ::
  "node_table \<Rightarrow> dataset \<Rightarrow> string \<Rightarrow> string \<Rightarrow> real \<Rightarrow> real list \<Rightarrow> int
     \<Rightarrow> int \<times> int \<times> int \<Rightarrow> builder \<Rightarrow> (error \<times> builder) + builder" where
  "surface_body nodes ds comp_i comp_j scale all_values segments m s =
     (case m of (eid, ni, nj) \<Rightarrow>
     (let girder_name = girder_name_of eid in
     (case nodes ni of None \<Rightarrow> Inl (KeyError, s) | Some p1 \<Rightarrow>
     (case nodes nj of None \<Rightarrow> Inl (KeyError, s) | Some p2 \<Rightarrow>
     (case sel ds eid comp_i of Inl e \<Rightarrow> Inl (e, s) | Inr v_i \<Rightarrow>
     (case sel ds eid comp_j of Inl e \<Rightarrow> Inl (e, s) | Inr v_j \<Rightarrow>
     (case mesh_points p1 p2 v_i v_j scale segments of Inl e \<Rightarrow> Inl (e, s) | Inr pts \<Rightarrow>
     (let tris = triangles segments;
          show_in_legend = (girder_name \<notin> shown_in_legend s);
          s1 = mark_legend girder_name s
      in
     (case py_min all_values of Inl e \<Rightarrow> Inl (e, s1) | Inr lo \<Rightarrow>
     (case py_max all_values of Inl e \<Rightarrow> Inl (e, s1) | Inr hi \<Rightarrow>
        add_surface girder_name eid p1 p2 v_i v_j scale show_in_legend pts tris lo hi s1
     ))))))))))"

text \<open>Lines 191 to 333: the handler prints the warning and goes to the next element.\<close>

fun surface_loop ::
  "node_table \<Rightarrow> dataset \<Rightarrow> string \<Rightarrow> string \<Rightarrow> real \<Rightarrow> real list \<Rightarrow> int
     \<Rightarrow> (int \<times> int \<times> int) list \<Rightarrow> builder \<Rightarrow> builder" where
  "surface_loop nodes ds comp_i comp_j scale all_values segments [] s = s"
| "surface_loop nodes ds comp_i comp_j scale all_values segments (m # rest) s =
     (case surface_body nodes ds comp_i comp_j scale all_values segments m s of
        Inl (e, s') \<Rightarrow>
          surface_loop nodes ds comp_i comp_j scale all_values segments rest
            (s'\<lparr>console := console s' @ [Could_not_process (fst m) e]\<rparr>)
      | Inr s' \<Rightarrow>
          surface_loop nodes ds comp_i comp_j scale all_values segments rest s')"

subsection \<open>Visibility buttons\<close>

record button =
  label :: string
  visible :: "bool list"

text \<open>
  \<open>for idx in ...: visibility[idx] = True\<close>; assigning past the end of a list raises
  IndexError.
\<close>

fun set_visible :: "nat list \<Rightarrow> bool list \<Rightarrow> error + bool list" where
  "set_visible [] visibility = Inr visibility"
| "set_visible (idx # rest) visibility =
     (if idx < length visibility then set_visible rest (visibility[idx := True])
      else Inl IndexError)"

text \<open>Lines 426 to 436.\<close>

fun girder_buttons ::
  "(string \<rightharpoonup> nat list) \<Rightarrow> nat \<Rightarrow> string list \<Rightarrow> button list \<Rightarrow> error + button list" where
  "girder_buttons traces total_traces [] buttons = Inr buttons"
| "girder_buttons traces total_traces (girder_name # rest) buttons =
     (case traces girder_name of
        None \<Rightarrow> girder_buttons traces total_traces rest buttons
      | Some idxs \<Rightarrow>
          (case set_visible idxs (replicate total_traces False) of
             Inl e \<Rightarrow> Inl e
           | Inr visibility \<Rightarrow>
               girder_buttons traces total_traces rest
                 (buttons @ [\<lparr>label = girder_name, visible = visibility\<rparr>])))"

text \<open>Lines 415 to 448.\<close>

definition make_buttons :: "(string \<rightharpoonup> nat list) \<Rightarrow> nat \<Rightarrow> error + button list" where
  "make_buttons traces total_traces =
     (let buttons = [\<lparr>label = ''All Girders'', visible = replicate total_traces True\<rparr>]
      in (case girder_buttons traces total_traces
                 [''Girder 1'', ''Girder 2'', ''Girder 3'', ''Girder 4'', ''Girder 5''] buttons of
            Inl e \<Rightarrow> Inl e
          | Inr buttons' \<Rightarrow>
              (case traces ''Other Elements'' of
                 None \<Rightarrow> Inr buttons'
               | Some idxs \<Rightarrow>
                   (if idxs \<noteq> [] then
                      (case set_visible idxs (replicate total_traces False) of
                         Inl e \<Rightarrow> Inl e
                       | Inr visibility \<Rightarrow>
                           Inr (buttons' @
                                [\<lparr>label = ''Transverse Only'', visible = visibility\<rparr>]))
                    else Inr buttons'))))"

subsection \<open>The whole function\<close>

text \<open>
  \<open>create_enhanced_3d_diagram\<close> from the loaded tables on. \<open>members\<close> is the
  dictionary as the list of its items, in insertion order. The result is the builder
  after the last trace together with the buttons.
\<close>

definition create_enhanced_3d_diagram ::
  "dataset \<Rightarrow> node_table \<Rightarrow> (int \<times> int \<times> int) list \<Rightarrow> string \<Rightarrow> int
     \<Rightarrow> error + (builder \<times> button list)" where
  "create_enhanced_3d_diagram ds nodes members result_type segments =
     (case components_of result_type of (comp_i, comp_j) \<Rightarrow>
     (let all_values = collect_values ds comp_i comp_j (map fst members) [];
          scale = scale_factor result_type all_values
      in
     (case centerline_loop nodes members initial_builder of
        Inl e \<Rightarrow> Inl e
      | Inr s1 \<Rightarrow>
          (let s2 = surface_loop nodes ds comp_i comp_j scale all_values segments members s1
           in (case make_buttons (girder_traces s2) (length (fig_data s2)) of
                 Inl e \<Rightarrow> Inl e
               | Inr buttons \<Rightarrow> Inr (s2, buttons))))))"

section \<open>Auxiliary definitions for the proofs\<close>


text \<open>
  Whether the continuity check finds a mismatch at position \<open>k\<close> of the chain: the
  first node of element \<open>k\<close> differs from the second node of element \<open>k - 1\<close>.
\<close>

definition mismatched :: "(int \<rightharpoonup> int \<times> int) \<Rightarrow> int list \<Rightarrow> nat \<Rightarrow> bool" where
  "mismatched members elems k =
     (case members (elems ! (k - 1)) of
        None \<Rightarrow> False
      | Some prev \<Rightarrow>
          (case members (elems ! k) of None \<Rightarrow> False | Some cur \<Rightarrow> fst cur \<noteq> snd prev))"

text \<open>The six keys of \<open>girder_traces\<close>.\<close>

definition group_names :: "string set" where
  "group_names =
     {''Girder 1'', ''Girder 2'', ''Girder 3'', ''Girder 4'', ''Girder 5'', ''Other Elements''}"

text \<open>
  The four traces that the body of the \<open>try\<close> adds for one element, and the reads and
  computations of that body that can raise, without the builder.
\<close>

definition ribbon_traces ::
  "string \<Rightarrow> int \<Rightarrow> coord \<Rightarrow> coord \<Rightarrow> real \<Rightarrow> real \<Rightarrow> real \<Rightarrow> bool
     \<Rightarrow> real list \<times> real list \<times> real list \<times> real list
     \<Rightarrow> nat list \<times> nat list \<times> nat list \<Rightarrow> real \<Rightarrow> real \<Rightarrow> bool \<Rightarrow> trace list" where
  "ribbon_traces g eid p1 p2 v_i v_j scale show_in_legend pts tris lo hi first =
     (case p1 of (x1, y1, z1) \<Rightarrow>
     (case p2 of (x2, y2, z2) \<Rightarrow>
     (case pts of (X, Y, Z, C) \<Rightarrow>
     (case tris of (I, J, K) \<Rightarrow>
        [Mesh3d X Y Z I J K g g show_in_legend C lo hi first eid,
         Scatter3d [x1, x1] [y1, y1 + v_i * scale] [z1, z1] 4 g g,
         Scatter3d [x2, x2] [y2, y2 + v_j * scale] [z2, z2] 2 g g,
         Scatter3d [x1, x2] [y1 + v_i * scale, y2 + v_j * scale] [z1, z2] 1.5 g g]))))"

definition element_ribbon ::
  "node_table \<Rightarrow> dataset \<Rightarrow> string \<Rightarrow> string \<Rightarrow> real \<Rightarrow> real list \<Rightarrow> int
     \<Rightarrow> int \<times> int \<times> int \<Rightarrow> bool \<Rightarrow> bool \<Rightarrow> error + trace list" where
  "element_ribbon nodes ds comp_i comp_j scale all_values segments m show_in_legend first =
     (case m of (eid, ni, nj) \<Rightarrow>
     (case nodes ni of None \<Rightarrow> Inl KeyError | Some p1 \<Rightarrow>
     (case nodes nj of None \<Rightarrow> Inl KeyError | Some p2 \<Rightarrow>
     (case sel ds eid comp_i of Inl e \<Rightarrow> Inl e | Inr v_i \<Rightarrow>
     (case sel ds eid comp_j of Inl e \<Rightarrow> Inl e | Inr v_j \<Rightarrow>
     (case mesh_points p1 p2 v_i v_j scale segments of Inl e \<Rightarrow> Inl e | Inr pts \<Rightarrow>
     (case py_min all_values of Inl e \<Rightarrow> Inl e | Inr lo \<Rightarrow>
     (case py_max all_values of Inl e \<Rightarrow> Inl e | Inr hi \<Rightarrow>
        Inr (ribbon_traces (girder_name_of eid) eid p1 p2 v_i v_j scale show_in_legend
               pts (triangles segments) lo hi first)))))))))"

text \<open>
  The invariant of the builder: the keys of \<open>girder_traces\<close> are the six group names,
  every trace is named after one of them, and the list recorded for a group holds, in
  increasing order, exactly the indices of the traces named after it.
\<close>

definition recorded :: "builder \<Rightarrow> bool" where
  "recorded s \<longleftrightarrow>
     dom (girder_traces s) = group_names
     \<and> (\<forall>tr \<in> set (fig_data s). tr_name tr \<in> group_names)
     \<and> (\<forall>g \<in> group_names.
           girder_traces s g =
             Some (filter (\<lambda>k. tr_name (fig_data s ! k) = g) [0..<length (fig_data s)]))"

text \<open>
  A trace is either a line (\<open>Scatter3d\<close>) or a mesh (\<open>Mesh3d\<close>).
\<close>

definition is_mesh :: "trace \<Rightarrow> bool" where
  "is_mesh tr \<longleftrightarrow> \<not> is_Scatter3d tr"

text \<open>
  The value list, the scale and the ribbon of one element as a run of
  \<open>create_enhanced_3d_diagram\<close> computes them from its arguments.
\<close>

definition run_values :: "dataset \<Rightarrow> string \<Rightarrow> (int \<times> int \<times> int) list \<Rightarrow> real list" where
  "run_values ds result_type members =
     collect_values ds (fst (components_of result_type)) (snd (components_of result_type))
       (map fst members) []"

definition run_scale :: "dataset \<Rightarrow> string \<Rightarrow> (int \<times> int \<times> int) list \<Rightarrow> real" where
  "run_scale ds result_type members = scale_factor result_type (run_values ds result_type members)"

definition run_ribbon ::
  "node_table \<Rightarrow> dataset \<Rightarrow> string \<Rightarrow> int \<Rightarrow> (int \<times> int \<times> int) list
     \<Rightarrow> int \<times> int \<times> int \<Rightarrow> error + trace list" where
  "run_ribbon nodes ds result_type segments members m =
     element_ribbon nodes ds (fst (components_of result_type)) (snd (components_of result_type))
       (run_scale ds result_type members) (run_values ds result_type members) segments m
       False False"

text \<open>
  A button that shows exactly the traces recorded for group \<open>g\<close>.
\<close>

definition group_button :: "(string \<rightharpoonup> nat list) \<Rightarrow> nat \<Rightarrow> string \<Rightarrow> string \<Rightarrow> button" where
  "group_button traces n g text =
     \<lparr>label = text, visible = map (\<lambda>k. k \<in> set (the (traces g))) [0..<n]\<rparr>"

text \<open>
  Projections of the result of a run, for evaluation at concrete inputs.
\<close>

definition buttons_of :: "error + (builder \<times> button list) \<Rightarrow> button list" where
  "buttons_of r = (case r of Inl _ \<Rightarrow> [] | Inr (s, b) \<Rightarrow> b)"

definition figure_of :: "error + (builder \<times> button list) \<Rightarrow> trace list" where
  "figure_of r = (case r of Inl _ \<Rightarrow> [] | Inr (s, b) \<Rightarrow> fig_data s)"

definition error_of :: "error + (builder \<times> button list) \<Rightarrow> error option" where
  "error_of r = (case r of Inl e \<Rightarrow> Some e | Inr _ \<Rightarrow> None)"


text \<open>
  What is expected of a mesh built with \<open>S\<close> segments: \<open>2 * (S + 1)\<close>
  vertices, \<open>2 * S\<close> triangles whose corners are vertex indices, and for every
  segment \<open>q\<close> the two triangles \<open>(2q, 2q+1, 2q+2)\<close> and
  \<open>(2q+1, 2q+3, 2q+2)\<close>, which share the edge from \<open>2q+1\<close> to
  \<open>2q+2\<close>. A line trace satisfies it trivially.
\<close>

definition mesh_counts_ok :: "nat \<Rightarrow> trace \<Rightarrow> bool" where
  "mesh_counts_ok S tr \<longleftrightarrow>
     (is_mesh tr \<longrightarrow>
        length (tr_x tr) = 2 * (S + 1) \<and> length (tr_y tr) = 2 * (S + 1)
      \<and> length (tr_z tr) = 2 * (S + 1) \<and> length (intensity tr) = 2 * (S + 1)
      \<and> length (mesh_i tr) = 2 * S \<and> length (mesh_j tr) = 2 * S
      \<and> length (mesh_k tr) = 2 * S
      \<and> (\<forall>t < 2 * S. mesh_i tr ! t < 2 * (S + 1) \<and> mesh_j tr ! t < 2 * (S + 1)
                      \<and> mesh_k tr ! t < 2 * (S + 1))
      \<and> (\<forall>q < S. mesh_i tr ! (2 * q) = 2 * q \<and> mesh_j tr ! (2 * q) = 2 * q + 1
                  \<and> mesh_k tr ! (2 * q) = 2 * q + 2
                  \<and> mesh_i tr ! (2 * q + 1) = 2 * q + 1 \<and> mesh_j tr ! (2 * q + 1) = 2 * q + 3
                  \<and> mesh_k tr ! (2 * q + 1) = 2 * q + 2))"

section \<open>Example inputs\<close>


text \<open>
  The chain of four elements of the central girder with nodes 3, 13, 18, 23, 28 at
  x = 0, 5, 10, 15, 20, and a dataset that holds all four components for them.
\<close>

definition members_chain :: "int \<rightharpoonup> int \<times> int" where
  "members_chain = [15 \<mapsto> (3, 13), 24 \<mapsto> (13, 18), 33 \<mapsto> (18, 23), 42 \<mapsto> (23, 28)]"

definition nodes_chain :: node_table where
  "nodes_chain = [3 \<mapsto> (0, 0, 0), 13 \<mapsto> (5, 0, 0), 18 \<mapsto> (10, 0, 0),
                  23 \<mapsto> (15, 0, 0), 28 \<mapsto> (20, 0, 0)]"

definition ds_chain :: dataset where
  "ds_chain = \<lparr>Element = [15, 24, 33, 42],
               Component = [''Mz_i'', ''Mz_j'', ''Vy_i'', ''Vy_j''],
               forces = (\<lambda>e c. if c = ''Mz_i'' \<or> c = ''Vy_i'' then real_of_int e else real_of_int e + 1)\<rparr>"

text \<open>Two elements that do not meet: element 24 starts at node 18, element 15 ends at 13.\<close>

definition members_gap :: "int \<rightharpoonup> int \<times> int" where
  "members_gap = [15 \<mapsto> (3, 13), 24 \<mapsto> (18, 23)]"

text \<open>The same dataset without the component \<open>Vy_j\<close>.\<close>

definition ds_no_shear_j :: dataset where
  "ds_no_shear_j = ds_chain\<lparr>Component := [''Mz_i'', ''Mz_j'', ''Vy_i'']\<rparr>"

text \<open>
  Three nodes on a line, a dataset for the single element 13 of Girder 1, and a
  dataset and member list with element 13 and the transverse element 1.
\<close>

definition nodes_line :: node_table where
  "nodes_line = [1 \<mapsto> (0, 0, 0), 2 \<mapsto> (5, 0, 0), 3 \<mapsto> (10, 0, 0)]"

definition ds_girder :: dataset where
  "ds_girder = \<lparr>Element = [13], Component = [''Mz_i'', ''Mz_j'', ''Vy_i'', ''Vy_j''],
                forces = (\<lambda>e c. 2)\<rparr>"

definition ds_two :: dataset where
  "ds_two = \<lparr>Element = [13, 1], Component = [''Mz_i'', ''Mz_j'', ''Vy_i'', ''Vy_j''],
             forces = (\<lambda>e c. if e = 13 then 2 else 1)\<rparr>"

definition members_two :: "(int \<times> int \<times> int) list" where
  "members_two = [(13, 1, 2), (1, 2, 3)]"

text \<open>
  Two members, the first of which refers to node 7, which \<open>nodes_line\<close> does not have.
\<close>

definition members_bad_node :: "(int \<times> int \<times> int) list" where
  "members_bad_node = [(13, 1, 7), (1, 2, 3)]"

section \<open>Properties of the scale pass\<close>









section \<open>Properties of the 2D script\<close>

subsection \<open>Continuity check\<close>

lemma enumerate_from:
  "k < length xs \<Longrightarrow>
   List.enumerate k (drop k xs) = (k, xs ! k) # List.enumerate (Suc k) (drop (Suc k) xs)"
  by (simp add: Cons_nth_drop_Suc [symmetric])

lemma continuity_loop_from:
  assumes "set elems \<subseteq> dom members"
  shows "k \<le> length elems \<Longrightarrow>
         continuity_loop members elems (List.enumerate k (drop k elems)) out =
           (out @ map (\<lambda>j. Connectivity_warning (elems ! j))
                    (filter (mismatched members elems) [max k 1..<length elems]), Inr ())"
proof (induction "length elems - k" arbitrary: k out)
  case 0
  then show ?case by simp
next
  case (Suc n)
  then have k: "k < length elems" by simp
  have IH: "continuity_loop members elems (List.enumerate (Suc k) (drop (Suc k) elems)) out' =
           (out' @ map (\<lambda>j. Connectivity_warning (elems ! j))
                    (filter (mismatched members elems) [max (Suc k) 1..<length elems]), Inr ())" for out'
    using Suc.hyps(1) [of "Suc k" out'] Suc.hyps(2) k by simp
  obtain ni nj where cur: "members (elems ! k) = Some (ni, nj)"
    using assms k by (metis domD nth_mem subsetD surj_pair)
  show ?case
  proof (cases "k = 0")
    case True
    show ?thesis
      unfolding enumerate_from [OF k] using True cur IH by simp
  next
    case False
    then have k1: "k - 1 < length elems" using k by simp
    then obtain pi pj where prev: "members (elems ! (k - 1)) = Some (pi, pj)"
      using assms by (metis domD nth_mem subsetD surj_pair)
    have upt: "[max k 1..<length elems] = k # [max (Suc k) 1..<length elems]"
    proof -
      have "max k 1 = k" "max (Suc k) 1 = Suc k" using False by simp_all
      then show ?thesis using k by (simp add: upt_conv_Cons)
    qed
    show ?thesis
      unfolding enumerate_from [OF k] upt
      using False k1 cur prev IH by (simp add: mismatched_def)
  qed
qed

lemma continuity_check_eq:
  assumes "set elems \<subseteq> dom members"
  shows "continuity_check members elems out =
           (out @ map (\<lambda>j. Connectivity_warning (elems ! j))
                    (filter (mismatched members elems) [1..<length elems]), Inr ())"
  using continuity_loop_from [OF assms, of 0 out]
  by (simp add: continuity_check_def enumerate_list_def)

lemma extraction_loop_console:
  "extraction_loop members nodes ds es out pr =
     (out @ fst (extraction_loop members nodes ds es [] pr),
      snd (extraction_loop members nodes ds es [] pr))"
proof (induction es arbitrary: pr)
  case Nil
  show ?case by simp
next
  case (Cons p es)
  obtain idx ele where p: "p = (idx, ele)" by (cases p)
  show ?case
    unfolding p
    by (simp add: Cons.IH [symmetric] Let_def split: option.split sum.split prod.split)
qed

text \<open>
  Claim C8. When every element of the chain is in the member table, the continuity check
  compares, for each consecutive pair in the listed order, the second node of element
  \<open>k - 1\<close> with the first node of element \<open>k\<close>, prints one warning naming element
  \<open>k\<close> for each mismatch, in order, and ends normally whatever the number of
  mismatches. The outcome of the script (the extracted profile or the exception) is the
  outcome of the extraction alone.
\<close>

theorem continuity_check_warns_only:
  assumes "set elems \<subseteq> dom members"
  shows "continuity_check members elems out =
           (out @ map (\<lambda>k. Connectivity_warning (elems ! k))
                    (filter (mismatched members elems) [1..<length elems]), Inr ())
       \<and> snd (task_1 members nodes ds elems) = snd (extraction members nodes ds elems [])"
proof
  show "continuity_check members elems out =
           (out @ map (\<lambda>k. Connectivity_warning (elems ! k))
                    (filter (mismatched members elems) [1..<length elems]), Inr ())"
    by (rule continuity_check_eq [OF assms])
  obtain w where w: "continuity_check members elems [] = (w, Inr ())"
    using continuity_check_eq [OF assms, of "[]"] by simp
  obtain o1 r where e: "extraction members nodes ds elems [] = (o1, r)"
    by (cases "extraction members nodes ds elems []")
  have e': "extraction members nodes ds elems (w @ [Connectivity_verified]) =
              (w @ [Connectivity_verified] @ o1, r)"
    using e extraction_loop_console [of members nodes ds "enumerate_list elems"
             "w @ [Connectivity_verified]"]
    by (simp add: extraction_def)
  show "snd (task_1 members nodes ds elems) = snd (extraction members nodes ds elems [])"
    by (simp add: task_1_def w e e' split: sum.split)
qed

text \<open>The theorem on a chain of two elements with a gap between them.\<close>

theorem continuity_check_warns_only_witness:
  "continuity_check members_gap [15, 24] [] = ([Connectivity_warning 24], Inr ())
   \<and> snd (task_1 members_gap nodes_chain ds_chain [15, 24])
       = snd (extraction members_gap nodes_chain ds_chain [15, 24] [])"
proof -
  have d: "set [15, 24] \<subseteq> dom members_gap"
    by (simp add: members_gap_def)
  have w: "filter (mismatched members_gap [15, 24]) [1..<length [15, 24 :: int]] = [1]"
    by (simp add: mismatched_def members_gap_def upt_conv_Cons)
  show ?thesis
    using continuity_check_warns_only [OF d, of "[]" nodes_chain ds_chain]
    unfolding w by simp
qed

subsection \<open>Extraction\<close>

lemma extraction_loop_from:
  assumes m: "\<forall>e \<in> set es. members e = Some (node_i e, node_j e)"
    and n: "\<forall>e \<in> set es. nodes (node_i e) = Some (coord_i e) \<and> nodes (node_j e) = Some (coord_j e)"
    and f: "\<forall>e \<in> set es. read_forces ds e = Inr (mz_i e, mz_j e, vy_i e, vy_j e)"
  shows "extraction_loop members nodes ds (List.enumerate k es) out pr =
           (out, Inr \<lparr>positions = positions pr
                         @ (if k = 0 \<and> es \<noteq> [] then [fst (coord_i (hd es))] else [])
                         @ map (\<lambda>e. fst (coord_j e)) es,
                      bending_moments = bending_moments pr
                         @ (if k = 0 \<and> es \<noteq> [] then [mz_i (hd es)] else [])
                         @ map mz_j es,
                      shear_forces = shear_forces pr
                         @ (if k = 0 \<and> es \<noteq> [] then [vy_i (hd es)] else [])
                         @ map vy_j es\<rparr>)"
  using assms
proof (induction es arbitrary: k pr)
  case Nil
  show ?case by simp
next
  case (Cons e es)
  have IH: "extraction_loop members nodes ds (List.enumerate (Suc k') es) out pr' =
           (out, Inr \<lparr>positions = positions pr' @ map (\<lambda>e. fst (coord_j e)) es,
                      bending_moments = bending_moments pr' @ map mz_j es,
                      shear_forces = shear_forces pr' @ map vy_j es\<rparr>)" for pr' k'
    using Cons.IH [of "Suc k'" pr'] Cons.prems by simp
  have me: "members e = Some (node_i e, node_j e)"
    and ci: "nodes (node_i e) = Some (coord_i e)"
    and cj: "nodes (node_j e) = Some (coord_j e)"
    and fe: "read_forces ds e = Inr (mz_i e, mz_j e, vy_i e, vy_j e)"
    using Cons.prems by simp_all
  show ?case
    by (simp add: me ci cj fe IH Let_def)
qed

text \<open>
  Claim C3. For a non-empty chain of N elements whose member, node and force lookups all
  resolve, the extraction returns N + 1 positions, moments and shear values: both ends of
  the first element, then the second end of every element after it. Each position is the
  x coordinate of the node.
\<close>

theorem extraction_chain:
  assumes "elems \<noteq> []"
    and "\<forall>e \<in> set elems. members e = Some (node_i e, node_j e)"
    and "\<forall>e \<in> set elems. nodes (node_i e) = Some (coord_i e) \<and> nodes (node_j e) = Some (coord_j e)"
    and "\<forall>e \<in> set elems. read_forces ds e = Inr (mz_i e, mz_j e, vy_i e, vy_j e)"
  shows "\<exists>pr. extraction members nodes ds elems out = (out, Inr pr)
           \<and> positions pr = fst (coord_i (hd elems)) # map (\<lambda>e. fst (coord_j e)) elems
           \<and> bending_moments pr = mz_i (hd elems) # map mz_j elems
           \<and> shear_forces pr = vy_i (hd elems) # map vy_j elems
           \<and> length (positions pr) = length elems + 1
           \<and> length (bending_moments pr) = length elems + 1
           \<and> length (shear_forces pr) = length elems + 1"
  using assms(1) extraction_loop_from [OF assms(2,3,4), of 0 out
          "\<lparr>positions = [], bending_moments = [], shear_forces = []\<rparr>"]
  by (simp add: extraction_def enumerate_list_def)

text \<open>
  The example of the claim: elements 15, 24, 33, 42 give the positions
  0, 5, 10, 15, 20.
\<close>

theorem extraction_chain_witness:
  "\<exists>pr. extraction members_chain nodes_chain ds_chain [15, 24, 33, 42] [] = ([], Inr pr)
         \<and> positions pr = [0, 5, 10, 15, 20]
         \<and> length (positions pr) = 5 \<and> length (bending_moments pr) = 5
         \<and> length (shear_forces pr) = 5"
proof -
  have a: "[15, 24, 33, 42] \<noteq> ([] :: int list)" by simp
  have m: "\<forall>e \<in> set [15, 24, 33, 42].
             members_chain e = Some (fst (the (members_chain e)), snd (the (members_chain e)))"
    by (simp add: members_chain_def)
  have n: "\<forall>e \<in> set [15, 24, 33, 42].
             nodes_chain (fst (the (members_chain e)))
               = Some (the (nodes_chain (fst (the (members_chain e)))))
           \<and> nodes_chain (snd (the (members_chain e)))
               = Some (the (nodes_chain (snd (the (members_chain e)))))"
    by (simp add: members_chain_def nodes_chain_def)
  have f: "\<forall>e \<in> set [15, 24, 33, 42].
             read_forces ds_chain e =
               Inr (real_of_int e, real_of_int e + 1, real_of_int e, real_of_int e + 1)"
    by (simp add: read_forces_def sel_def ds_chain_def)
  have pos: "fst (the (nodes_chain (fst (the (members_chain (hd [15, 24, 33, 42])))))) #
               map (\<lambda>e. fst (the (nodes_chain (snd (the (members_chain e)))))) [15, 24, 33, 42]
             = [0, 5, 10, 15, 20]"
    by (simp add: members_chain_def nodes_chain_def)
  from extraction_chain [OF a m n f, of "[]"] obtain pr where
    pr: "extraction members_chain nodes_chain ds_chain [15, 24, 33, 42] [] = ([], Inr pr)"
      "positions pr =
         fst (the (nodes_chain (fst (the (members_chain (hd [15, 24, 33, 42])))))) #
         map (\<lambda>e. fst (the (nodes_chain (snd (the (members_chain e)))))) [15, 24, 33, 42]"
      "length (positions pr) = length [15, 24, 33, 42 :: int] + 1"
      "length (bending_moments pr) = length [15, 24, 33, 42 :: int] + 1"
      "length (shear_forces pr) = length [15, 24, 33, 42 :: int] + 1"
    by blast
  show ?thesis
    using pr(1) pr(2) [unfolded pos] pr(3,4,5) by (intro exI [of _ pr]) simp
qed

subsection \<open>Missing components\<close>

lemma read_forces_error: "read_forces ds e = Inl err \<Longrightarrow> err = KeyError"
  by (auto simp: read_forces_def sel_def split: sum.splits if_splits)

lemma read_forces_missing:
  assumes "c \<in> {''Mz_i'', ''Mz_j'', ''Vy_i'', ''Vy_j''}" and "sel ds e c = Inl err"
  shows "read_forces ds e = Inl KeyError"
proof (cases "read_forces ds e")
  case (Inl a)
  then show ?thesis using read_forces_error by blast
next
  case (Inr r)
  then show ?thesis
    using assms by (auto simp: read_forces_def split: sum.splits)
qed

lemma extraction_loop_never_defaults:
  assumes "e \<in> snd ` set es" and "read_forces ds e = Inl KeyError"
  shows "\<exists>out' err. extraction_loop members nodes ds es out pr = (out', Inl err)"
  using assms
proof (induction es arbitrary: out pr)
  case Nil
  then show ?case by simp
next
  case (Cons p es)
  obtain idx ele where p: "p = (idx, ele)" by (cases p)
  show ?case
  proof (cases "read_forces ds ele")
    case (Inl a)
    then show ?thesis unfolding p
      by (simp add: Let_def split: option.split prod.split)
  next
    case (Inr r)
    then have "e \<in> snd ` set es" using Cons.prems p by auto
    from Cons.IH [OF this Cons.prems(2)] show ?thesis
      unfolding p using Inr
      by (simp add: Let_def split: option.split prod.split)
  qed
qed

lemma extraction_loop_reports:
  assumes "\<forall>e \<in> snd ` set es. \<exists>ni nj ci cj.
             members e = Some (ni, nj) \<and> nodes ni = Some ci \<and> nodes nj = Some cj"
    and "e \<in> snd ` set es" and "read_forces ds e = Inl KeyError"
  shows "\<exists>e0 \<in> snd ` set es. read_forces ds e0 = Inl KeyError \<and>
           extraction_loop members nodes ds es out pr =
             (out @ [Error_reading_element e0, Available_components (Component ds)],
              Inl KeyError)"
  using assms
proof (induction es arbitrary: pr)
  case Nil
  then show ?case by simp
next
  case (Cons p es)
  obtain idx ele where p: "p = (idx, ele)" by (cases p)
  obtain ni nj ci cj where g: "members ele = Some (ni, nj)" "nodes ni = Some ci" "nodes nj = Some cj"
    using Cons.prems(1) p by fastforce
  show ?case
  proof (cases "read_forces ds ele")
    case (Inl a)
    then have a: "a = KeyError" by (rule read_forces_error)
    show ?thesis unfolding p
      using Inl a g by (intro bexI [of _ ele]) (simp_all add: Let_def)
  next
    case (Inr r)
    then have mem: "e \<in> snd ` set es" using Cons.prems p by auto
    have geo: "\<forall>e \<in> snd ` set es. \<exists>ni nj ci cj.
             members e = Some (ni, nj) \<and> nodes ni = Some ci \<and> nodes nj = Some cj"
      using Cons.prems(1) by simp
    obtain mz_i mz_j vy_i vy_j where r: "r = (mz_i, mz_j, vy_i, vy_j)" by (cases r)
    have step: "\<exists>pr'. extraction_loop members nodes ds (p # es) out pr =
                  extraction_loop members nodes ds es out pr'"
      unfolding p using Inr g r by (cases "idx = 0") (auto simp: Let_def)
    then obtain pr' where pr': "extraction_loop members nodes ds (p # es) out pr =
                  extraction_loop members nodes ds es out pr'" by blast
    from Cons.IH [OF geo mem Cons.prems(3), of pr'] show ?thesis
      unfolding pr' by auto
  qed
qed

lemma snd_set_enumerate: "snd ` set (List.enumerate n xs) = set xs"
  by (metis map_snd_enumerate set_map)

text \<open>
  Claim C7. If one of the four components cannot be read for some element of the chain,
  the script ends with an exception and returns no profile. When the member and node
  lookups of the chain resolve, the exception is the KeyError of the read, and the last
  two lines printed name the element whose read failed and list the components of the
  dataset.
\<close>

theorem missing_component_is_fatal:
  assumes "e \<in> set elems"
    and "c \<in> {''Mz_i'', ''Mz_j'', ''Vy_i'', ''Vy_j''}"
    and "sel ds e c = Inl err"
  shows "(\<exists>out err'. task_1 members nodes ds elems = (out, Inl err'))
       \<and> ((\<forall>e \<in> set elems. \<exists>ni nj ci cj.
              members e = Some (ni, nj) \<and> nodes ni = Some ci \<and> nodes nj = Some cj) \<longrightarrow>
           (\<exists>out e0. e0 \<in> set elems \<and> read_forces ds e0 = Inl KeyError \<and>
              task_1 members nodes ds elems =
                (out @ [Error_reading_element e0, Available_components (Component ds)],
                 Inl KeyError)))"
proof (intro conjI impI)
  have rf: "read_forces ds e = Inl KeyError"
    using assms(2,3) by (rule read_forces_missing)
  have mem: "e \<in> snd ` set (enumerate_list elems)"
    using assms(1) by (simp add: enumerate_list_def snd_set_enumerate)
  show "\<exists>out err'. task_1 members nodes ds elems = (out, Inl err')"
  proof (cases "continuity_check members elems []")
    case (Pair w r)
    show ?thesis
    proof (cases r)
      case (Inl a)
      then show ?thesis using Pair by (simp add: task_1_def)
    next
      case (Inr u)
      obtain out' err' where
        "extraction members nodes ds elems (w @ [Connectivity_verified]) = (out', Inl err')"
        using extraction_loop_never_defaults [OF mem rf] unfolding extraction_def by blast
      then show ?thesis using Pair Inr by (simp add: task_1_def)
    qed
  qed
next
  assume geo: "\<forall>e \<in> set elems. \<exists>ni nj ci cj.
              members e = Some (ni, nj) \<and> nodes ni = Some ci \<and> nodes nj = Some cj"
  have rf: "read_forces ds e = Inl KeyError"
    using assms(2,3) by (rule read_forces_missing)
  have mem: "e \<in> snd ` set (enumerate_list elems)"
    using assms(1) by (simp add: enumerate_list_def snd_set_enumerate)
  have geo': "\<forall>e \<in> snd ` set (enumerate_list elems). \<exists>ni nj ci cj.
              members e = Some (ni, nj) \<and> nodes ni = Some ci \<and> nodes nj = Some cj"
    using geo by (simp add: enumerate_list_def snd_set_enumerate)
  have "set elems \<subseteq> dom members" using geo by blast
  then obtain w where w: "continuity_check members elems [] = (w, Inr ())"
    using continuity_check_eq [of elems members "[]"] by simp
  obtain e0 where e0: "e0 \<in> set elems" "read_forces ds e0 = Inl KeyError"
      "extraction members nodes ds elems (w @ [Connectivity_verified]) =
         ((w @ [Connectivity_verified]) @
            [Error_reading_element e0, Available_components (Component ds)], Inl KeyError)"
    using extraction_loop_reports [OF geo' mem rf, of "w @ [Connectivity_verified]"]
    unfolding extraction_def by (auto simp: enumerate_list_def snd_set_enumerate)
  show "\<exists>out e0. e0 \<in> set elems \<and> read_forces ds e0 = Inl KeyError \<and>
              task_1 members nodes ds elems =
                (out @ [Error_reading_element e0, Available_components (Component ds)],
                 Inl KeyError)"
    using e0 w by (intro exI [of _ "w @ [Connectivity_verified]"] exI [of _ e0])
                   (simp add: task_1_def)
qed

text \<open>The theorem on the four-element chain, read from a dataset without \<open>Vy_j\<close>.\<close>

theorem missing_component_is_fatal_witness:
  "(\<exists>out err'. task_1 members_chain nodes_chain ds_no_shear_j [15, 24, 33, 42] = (out, Inl err'))
   \<and> (\<exists>out e0. e0 \<in> set [15, 24, 33, 42] \<and> read_forces ds_no_shear_j e0 = Inl KeyError \<and>
         task_1 members_chain nodes_chain ds_no_shear_j [15, 24, 33, 42] =
           (out @ [Error_reading_element e0, Available_components [''Mz_i'', ''Mz_j'', ''Vy_i'']],
            Inl KeyError))"
proof -
  have a: "24 \<in> set [15, 24, 33, 42 :: int]" by simp
  have b: "''Vy_j'' \<in> {''Mz_i'', ''Mz_j'', ''Vy_i'', ''Vy_j''}" by simp
  have c: "sel ds_no_shear_j 24 ''Vy_j'' = Inl KeyError"
    by (simp add: sel_def ds_no_shear_j_def ds_chain_def)
  have g: "\<forall>e \<in> set [15, 24, 33, 42]. \<exists>ni nj ci cj.
             members_chain e = Some (ni, nj) \<and> nodes_chain ni = Some ci \<and> nodes_chain nj = Some cj"
    by (simp add: members_chain_def nodes_chain_def)
  have k: "Component ds_no_shear_j = [''Mz_i'', ''Mz_j'', ''Vy_i'']"
    by (simp add: ds_no_shear_j_def)
  show ?thesis
    using missing_component_is_fatal [OF a b c, of members_chain nodes_chain] g
    unfolding k by blast
qed

section \<open>Properties of the 3D script\<close>

lemma is_mesh_simps [simp]:
  "is_mesh (Mesh3d X Y Z I J K n l sl C lo hi ss h)"
  "\<not> is_mesh (Scatter3d x y z w n l)"
  by (simp_all add: is_mesh_def)

lemma length_concat_pairs: "length (concat (map (\<lambda>i. [f i, g i]) ks)) = 2 * length ks"
  by (induction ks) simp_all

lemma nth_concat_pairs:
  "k < length ks \<Longrightarrow>
     concat (map (\<lambda>i. [f i, g i]) ks) ! (2 * k) = f (ks ! k)
   \<and> concat (map (\<lambda>i. [f i, g i]) ks) ! (2 * k + 1) = g (ks ! k)"
proof (induction ks arbitrary: k)
  case Nil
  then show ?case by simp
next
  case (Cons a ks)
  show ?case
  proof (cases k)
    case 0
    then show ?thesis by simp
  next
    case (Suc j)
    then have "j < length ks" using Cons.prems by simp
    from Cons.IH [OF this] show ?thesis using Suc by simp
  qed
qed

lemma set_concat_pairs: "set (concat (map (\<lambda>i. [f i, g i]) ks)) = f ` set ks \<union> g ` set ks"
  by (induction ks) auto

lemma mesh_points_loop_eq:
  assumes "segments \<noteq> 0"
  shows "mesh_points_loop (x1, y1, z1) (x2, y2, z2) v_i v_j scale segments ks (X, Y, Z, C) =
     Inr (X @ concat (map (\<lambda>i. [interpolate x1 x2 (real i / real_of_int segments),
                                 interpolate x1 x2 (real i / real_of_int segments)]) ks),
          Y @ concat (map (\<lambda>i. [interpolate y1 y2 (real i / real_of_int segments),
                                 interpolate y1 y2 (real i / real_of_int segments)
                                   + interpolate v_i v_j (real i / real_of_int segments) * scale]) ks),
          Z @ concat (map (\<lambda>i. [interpolate z1 z2 (real i / real_of_int segments),
                                 interpolate z1 z2 (real i / real_of_int segments)]) ks),
          C @ concat (map (\<lambda>i. [\<bar>interpolate v_i v_j (real i / real_of_int segments)\<bar>,
                                 \<bar>interpolate v_i v_j (real i / real_of_int segments)\<bar>]) ks))"
  using assms
proof (induction ks arbitrary: X Y Z C)
  case Nil
  show ?case by simp
next
  case (Cons i ks)
  show ?case using Cons.prems by (simp add: Cons.IH Let_def)
qed

lemma triangle_loop_eq:
  "triangle_loop ks (I, J, K) =
     (I @ concat (map (\<lambda>i. [i * 2, i * 2 + 1]) ks),
      J @ concat (map (\<lambda>i. [i * 2 + 1, i * 2 + 3]) ks),
      K @ concat (map (\<lambda>i. [i * 2 + 2, i * 2 + 2]) ks))"
  by (induction ks arbitrary: I J K) (simp_all add: Let_def)


lemma element_to_girder_range_aux:
  "fold (\<lambda>eid m'. m'(eid \<mapsto> g)) es m eid = Some h \<Longrightarrow> h = g \<or> m eid = Some h"
proof (induction es arbitrary: m)
  case Nil
  then show ?case by simp
next
  case (Cons a es)
  from Cons.prems have "fold (\<lambda>eid m'. m'(eid \<mapsto> g)) es (m(a \<mapsto> g)) eid = Some h"
    by (simp only: fold_simps)
  from Cons.IH [OF this] show ?case by (auto split: if_splits)
qed

lemma element_to_girder_range_fold:
  "fold (\<lambda>(girder_name, girder_info) m.
           fold (\<lambda>eid m'. m'(eid \<mapsto> girder_name)) (elements girder_info) m) gs m0 eid = Some h
   \<Longrightarrow> h \<in> fst ` set gs \<or> m0 eid = Some h"
proof (induction gs arbitrary: m0)
  case Nil
  then show ?case by simp
next
  case (Cons p gs)
  obtain g info where p: "p = (g, info)" by (cases p)
  from Cons.prems have
    "fold (\<lambda>(girder_name, girder_info) m.
           fold (\<lambda>eid m'. m'(eid \<mapsto> girder_name)) (elements girder_info) m) gs
       (fold (\<lambda>eid m'. m'(eid \<mapsto> g)) (elements info) m0) eid = Some h"
    unfolding p by (simp only: fold_simps prod.case)
  from Cons.IH [OF this] show ?case
    using element_to_girder_range_aux [of g "elements info" m0 eid h] p by auto
qed

lemma girder_name_of_group: "girder_name_of eid \<in> group_names"
proof (cases "element_to_girder eid")
  case None
  then show ?thesis by (simp add: girder_name_of_def group_names_def)
next
  case (Some h)
  then have "h \<in> fst ` set girders"
    using element_to_girder_range_fold [of girders Map.empty eid h]
    by (simp add: element_to_girder_def)
  then show ?thesis using Some
    by (auto simp: girder_name_of_def group_names_def girders_def)
qed

lemma dom_initial_girder_traces: "dom initial_girder_traces = group_names"
  by (auto simp: initial_girder_traces_def girders_def group_names_def)

lemma initial_girder_traces_empty:
  "g \<in> group_names \<Longrightarrow> initial_girder_traces g = Some []"
  by (auto simp: initial_girder_traces_def girders_def group_names_def)

lemma recorded_initial: "recorded initial_builder"
  by (simp add: recorded_def initial_builder_def dom_initial_girder_traces
        initial_girder_traces_empty)

lemma filter_names_snoc:
  "filter (\<lambda>k. tr_name ((fd @ [tr]) ! k) = h) [0..<Suc (length fd)] =
     filter (\<lambda>k. tr_name (fd ! k) = h) [0..<length fd]
       @ (if tr_name tr = h then [length fd] else [])"
proof -
  have "filter (\<lambda>k. tr_name ((fd @ [tr]) ! k) = h) [0..<length fd] =
        filter (\<lambda>k. tr_name (fd ! k) = h) [0..<length fd]"
    by (rule filter_cong) (simp_all add: nth_append)
  then show ?thesis by simp
qed

lemma recorded_add:
  assumes "recorded s" and "tr_name tr = g" and "g \<in> group_names"
  shows "\<exists>s'. record_trace g (add_trace tr s) = Inr s' \<and> recorded s'
           \<and> fig_data s' = fig_data s @ [tr]
           \<and> shown_in_legend s' = shown_in_legend s
           \<and> element_count s' = element_count s
           \<and> console s' = console s"
proof -
  let ?n = "length (fig_data s)"
  let ?idxs = "filter (\<lambda>k. tr_name (fig_data s ! k) = g) [0..<?n]"
  let ?s' = "(add_trace tr s)\<lparr>girder_traces := (girder_traces s)(g \<mapsto> ?idxs @ [?n])\<rparr>"
  have gt: "girder_traces s g = Some ?idxs"
    using assms(1,3) by (simp add: recorded_def)
  have run: "record_trace g (add_trace tr s) = Inr ?s'"
    using gt by (simp add: record_trace_def add_trace_def)
  have fd: "fig_data ?s' = fig_data s @ [tr]" by (simp add: add_trace_def)
  have dom: "dom (girder_traces ?s') = group_names"
    using assms(1,3) by (auto simp: recorded_def)
  have names: "\<forall>t \<in> set (fig_data ?s'). tr_name t \<in> group_names"
    using assms by (auto simp: recorded_def add_trace_def)
  have lists: "\<forall>h \<in> group_names.
           girder_traces ?s' h =
             Some (filter (\<lambda>k. tr_name (fig_data ?s' ! k) = h) [0..<length (fig_data ?s')])"
  proof
    fix h assume h: "h \<in> group_names"
    have old: "girder_traces s h = Some (filter (\<lambda>k. tr_name (fig_data s ! k) = h) [0..<?n])"
      using assms(1) h by (simp add: recorded_def)
    show "girder_traces ?s' h =
             Some (filter (\<lambda>k. tr_name (fig_data ?s' ! k) = h) [0..<length (fig_data ?s')])"
      unfolding fd using old assms(2) by (simp add: filter_names_snoc del: upt_Suc)
  qed
  have "recorded ?s'"
    unfolding recorded_def using dom names lists by blast
  then show ?thesis
    using run fd by (intro exI [of _ ?s']) (simp add: add_trace_def)
qed

lemma add_surface_recorded:
  assumes "recorded s1" and "g \<in> group_names"
  shows "\<exists>s'. add_surface g eid p1 p2 v_i v_j scale sil pts tris lo hi s1 = Inr s'
           \<and> recorded s'
           \<and> fig_data s' = fig_data s1
                 @ ribbon_traces g eid p1 p2 v_i v_j scale sil pts tris lo hi (element_count s1 = 0)
           \<and> element_count s' = Suc (element_count s1)
           \<and> console s' = console s1
           \<and> shown_in_legend s' = shown_in_legend s1"
proof -
  obtain x1 y1 z1 where p1: "p1 = (x1, y1, z1)" by (cases p1)
  obtain x2 y2 z2 where p2: "p2 = (x2, y2, z2)" by (cases p2)
  obtain X Y Z C where pts: "pts = (X, Y, Z, C)" by (cases pts)
  obtain I J K where tris: "tris = (I, J, K)" by (cases tris)
  let ?mesh = "Mesh3d X Y Z I J K g g sil C lo hi (element_count s1 = 0) eid"
  let ?e1 = "Scatter3d [x1, x1] [y1, y1 + v_i * scale] [z1, z1] 4 g g"
  let ?e2 = "Scatter3d [x2, x2] [y2, y2 + v_j * scale] [z2, z2] 2 g g"
  let ?e3 = "Scatter3d [x1, x2] [y1 + v_i * scale, y2 + v_j * scale] [z1, z2] 1.5 g g"
  obtain s2 where s2: "record_trace g (add_trace ?mesh s1) = Inr s2" "recorded s2"
      "fig_data s2 = fig_data s1 @ [?mesh]" "shown_in_legend s2 = shown_in_legend s1"
      "element_count s2 = element_count s1" "console s2 = console s1"
    using recorded_add [OF assms(1) _ assms(2), of ?mesh] by auto
  obtain s3 where s3: "record_trace g (add_trace ?e1 s2) = Inr s3" "recorded s3"
      "fig_data s3 = fig_data s2 @ [?e1]" "shown_in_legend s3 = shown_in_legend s2"
      "element_count s3 = element_count s2" "console s3 = console s2"
    using recorded_add [OF s2(2) _ assms(2), of ?e1] by auto
  obtain s4 where s4: "record_trace g (add_trace ?e2 s3) = Inr s4" "recorded s4"
      "fig_data s4 = fig_data s3 @ [?e2]" "shown_in_legend s4 = shown_in_legend s3"
      "element_count s4 = element_count s3" "console s4 = console s3"
    using recorded_add [OF s3(2) _ assms(2), of ?e2] by auto
  obtain s5 where s5: "record_trace g (add_trace ?e3 s4) = Inr s5" "recorded s5"
      "fig_data s5 = fig_data s4 @ [?e3]" "shown_in_legend s5 = shown_in_legend s4"
      "element_count s5 = element_count s4" "console s5 = console s4"
    using recorded_add [OF s4(2) _ assms(2), of ?e3] by auto
  have run: "add_surface g eid p1 p2 v_i v_j scale sil pts tris lo hi s1 =
               Inr (s5\<lparr>element_count := element_count s5 + 1\<rparr>)"
    unfolding add_surface_def p1 p2 pts tris
    by (simp only: and_then_def s2(1) s3(1) s4(1) s5(1) sum.case prod.case)
  have rec: "recorded (s5\<lparr>element_count := element_count s5 + 1\<rparr>)"
    using s5(2) by (simp add: recorded_def)
  show ?thesis
    unfolding run
    using rec s2 s3 s4 s5
    by (intro exI [of _ "s5\<lparr>element_count := element_count s5 + 1\<rparr>"])
       (simp add: ribbon_traces_def p1 p2 pts tris)
qed

lemma recorded_mark_legend: "recorded s \<Longrightarrow> recorded (mark_legend g s)"
  by (simp add: recorded_def mark_legend_def)

lemma mark_legend_fields:
  "fig_data (mark_legend g s) = fig_data s"
  "element_count (mark_legend g s) = element_count s"
  "console (mark_legend g s) = console s"
  "girder_traces (mark_legend g s) = girder_traces s"
  "shown_in_legend (mark_legend g s) = insert g (shown_in_legend s)"
  by (auto simp: mark_legend_def)

lemma surface_body_fails:
  assumes "recorded s"
    and "element_ribbon nodes ds ci cj scale av segs m
           (girder_name_of (fst m) \<notin> shown_in_legend s) (element_count s = 0) = Inl e"
  shows "\<exists>s'. surface_body nodes ds ci cj scale av segs m s = Inl (e, s')
           \<and> recorded s' \<and> fig_data s' = fig_data s
           \<and> element_count s' = element_count s \<and> console s' = console s"
proof -
  obtain eid ni nj where m: "m = (eid, ni, nj)" by (cases m)
  have r: "recorded (mark_legend (girder_name_of eid) s)"
    using assms(1) by (rule recorded_mark_legend)
  show ?thesis
    using assms r unfolding m surface_body_def element_ribbon_def
    by (auto simp: Let_def mark_legend_fields split: option.splits sum.splits)
qed

lemma surface_body_succeeds:
  assumes "recorded s"
    and "element_ribbon nodes ds ci cj scale av segs m
           (girder_name_of (fst m) \<notin> shown_in_legend s) (element_count s = 0) = Inr trs"
  shows "\<exists>s'. surface_body nodes ds ci cj scale av segs m s = Inr s'
           \<and> recorded s' \<and> fig_data s' = fig_data s @ trs
           \<and> element_count s' = Suc (element_count s) \<and> console s' = console s
           \<and> shown_in_legend s' = insert (girder_name_of (fst m)) (shown_in_legend s)"
proof -
  obtain eid ni nj where m: "m = (eid, ni, nj)" by (cases m)
  let ?g = "girder_name_of eid"
  from assms(2) obtain p1 p2 v_i v_j pts lo hi where
    ok: "nodes ni = Some p1" "nodes nj = Some p2" "sel ds eid ci = Inr v_i"
        "sel ds eid cj = Inr v_j" "mesh_points p1 p2 v_i v_j scale segs = Inr pts"
        "py_min av = Inr lo" "py_max av = Inr hi"
    and trs: "trs = ribbon_traces ?g eid p1 p2 v_i v_j scale (?g \<notin> shown_in_legend s)
                      pts (triangles segs) lo hi (element_count s = 0)"
    unfolding m element_ribbon_def
    by (auto split: option.splits sum.splits)
  have r: "recorded (mark_legend ?g s)"
    using assms(1) by (rule recorded_mark_legend)
  have body: "surface_body nodes ds ci cj scale av segs m s =
          add_surface ?g eid p1 p2 v_i v_j scale (?g \<notin> shown_in_legend s) pts
            (triangles segs) lo hi (mark_legend ?g s)"
    unfolding m surface_body_def by (simp add: ok Let_def)
  from add_surface_recorded [OF r girder_name_of_group [of eid], of eid p1 p2 v_i v_j scale
         "?g \<notin> shown_in_legend s" pts "triangles segs" lo hi]
  show ?thesis
    unfolding body trs by (simp add: mark_legend_fields m)
qed

lemma element_ribbon_flags:
  "(\<exists>e. element_ribbon nodes ds ci cj scale av segs m a b = Inl e) \<longleftrightarrow>
   (\<exists>e. element_ribbon nodes ds ci cj scale av segs m a' b' = Inl e)"
  by (auto simp: element_ribbon_def split: prod.splits option.splits sum.splits)

lemma recorded_console: "recorded s \<Longrightarrow> recorded (s\<lparr>console := c\<rparr>)"
  by (simp add: recorded_def)

lemma element_ribbon_Inr:
  "element_ribbon nodes ds ci cj scale av segs (eid, ni, nj) a b = Inr trs \<longleftrightarrow>
     (\<exists>p1 p2 v_i v_j pts lo hi.
        nodes ni = Some p1 \<and> nodes nj = Some p2 \<and> sel ds eid ci = Inr v_i
        \<and> sel ds eid cj = Inr v_j \<and> mesh_points p1 p2 v_i v_j scale segs = Inr pts
        \<and> py_min av = Inr lo \<and> py_max av = Inr hi
        \<and> trs = ribbon_traces (girder_name_of eid) eid p1 p2 v_i v_j scale a pts
                   (triangles segs) lo hi b)"
  by (auto simp: element_ribbon_def split: option.splits sum.splits)

lemma surface_loop_view:
  assumes ins: "\<And>g eid p1 p2 v_i v_j pts tris lo hi a b.
      map f (ribbon_traces g eid p1 p2 v_i v_j scale a pts tris lo hi b) =
      map f (ribbon_traces g eid p1 p2 v_i v_j scale False pts tris lo hi False)"
  shows "recorded s \<Longrightarrow>
     recorded (surface_loop nodes ds ci cj scale av segs ms s)
     \<and> (\<exists>rest. fig_data (surface_loop nodes ds ci cj scale av segs ms s) = fig_data s @ rest
            \<and> map f rest =
                concat (map (\<lambda>m. case element_ribbon nodes ds ci cj scale av segs m False False of
                                    Inl _ \<Rightarrow> [] | Inr trs \<Rightarrow> map f trs) ms))"
proof (induction ms arbitrary: s)
  case Nil
  then show ?case by simp
next
  case (Cons m ms)
  let ?r = "element_ribbon nodes ds ci cj scale av segs m
              (girder_name_of (fst m) \<notin> shown_in_legend s) (element_count s = 0)"
  let ?view = "\<lambda>m. case element_ribbon nodes ds ci cj scale av segs m False False of
                       Inl _ \<Rightarrow> [] | Inr trs \<Rightarrow> map f trs"
  show ?case
  proof (cases ?r)
    case (Inl e)
    from surface_body_fails [OF Cons.prems Inl] obtain s' where
      s': "surface_body nodes ds ci cj scale av segs m s = Inl (e, s')" "recorded s'"
          "fig_data s' = fig_data s"
      by blast
    obtain e' where e': "element_ribbon nodes ds ci cj scale av segs m False False = Inl e'"
      using Inl element_ribbon_flags by blast
    let ?s'' = "s'\<lparr>console := console s' @ [Could_not_process (fst m) e]\<rparr>"
    have r: "recorded ?s''"
      using s'(2) by (rule recorded_console)
    have step: "surface_loop nodes ds ci cj scale av segs (m # ms) s =
                surface_loop nodes ds ci cj scale av segs ms ?s''"
      by (simp add: s'(1))
    from Cons.IH [OF r] obtain rest where
      rest: "recorded (surface_loop nodes ds ci cj scale av segs ms ?s'')"
        "fig_data (surface_loop nodes ds ci cj scale av segs ms ?s'') = fig_data ?s'' @ rest"
        "map f rest = concat (map ?view ms)"
      by blast
    show ?thesis
      unfolding step using rest s'(3) e' by (intro conjI exI [of _ rest]) simp_all
  next
    case (Inr trs)
    from surface_body_succeeds [OF Cons.prems Inr] obtain s' where
      s': "surface_body nodes ds ci cj scale av segs m s = Inr s'" "recorded s'"
          "fig_data s' = fig_data s @ trs"
      by blast
    obtain eid ni nj where m: "m = (eid, ni, nj)" by (cases m)
    from Inr obtain p1 p2 v_i v_j pts lo hi where
      ok: "nodes ni = Some p1" "nodes nj = Some p2" "sel ds eid ci = Inr v_i"
          "sel ds eid cj = Inr v_j" "mesh_points p1 p2 v_i v_j scale segs = Inr pts"
          "py_min av = Inr lo" "py_max av = Inr hi"
      and trs: "trs = ribbon_traces (girder_name_of eid) eid p1 p2 v_i v_j scale
                        (girder_name_of (fst m) \<notin> shown_in_legend s) pts
                        (triangles segs) lo hi (element_count s = 0)"
      unfolding m element_ribbon_Inr by blast
    define trs' where "trs' = ribbon_traces (girder_name_of eid) eid p1 p2 v_i v_j scale
                        False pts (triangles segs) lo hi False"
    have t': "element_ribbon nodes ds ci cj scale av segs m False False = Inr trs'"
      unfolding m element_ribbon_Inr trs'_def using ok by blast
    have eq: "map f trs = map f trs'"
      unfolding trs trs'_def by (rule ins)
    have step: "surface_loop nodes ds ci cj scale av segs (m # ms) s =
                surface_loop nodes ds ci cj scale av segs ms s'"
      by (simp add: s'(1))
    from Cons.IH [OF s'(2)] obtain rest where
      rest: "recorded (surface_loop nodes ds ci cj scale av segs ms s')"
        "fig_data (surface_loop nodes ds ci cj scale av segs ms s') = fig_data s' @ rest"
        "map f rest = concat (map ?view ms)"
      by blast
    show ?thesis
      unfolding step using rest s'(3) t' eq by (intro conjI exI [of _ "trs @ rest"]) simp_all
  qed
qed

lemma centerline_loop_recorded:
  "recorded s \<Longrightarrow> centerline_loop nodes ms s = Inr s' \<Longrightarrow>
     recorded s'
     \<and> (\<exists>cs. fig_data s' = fig_data s @ cs \<and> length cs = length ms
              \<and> (\<forall>c \<in> set cs. is_Scatter3d c)
              \<and> map tr_name cs = map (\<lambda>m. girder_name_of (fst m)) ms)
     \<and> element_count s' = element_count s
     \<and> shown_in_legend s' = shown_in_legend s
     \<and> console s' = console s"
proof (induction ms arbitrary: s)
  case Nil
  then show ?case by simp
next
  case (Cons m ms)
  obtain eid ni nj where m: "m = (eid, ni, nj)" by (cases m)
  from Cons.prems(2) obtain x1 y1 z1 x2 y2 z2 where
    n: "nodes ni = Some (x1, y1, z1)" "nodes nj = Some (x2, y2, z2)"
    unfolding m by (auto split: option.splits)
  let ?g = "girder_name_of eid"
  let ?tr = "Scatter3d [x1, x2] [y1, y2] [z1, z2] 6 ?g ?g"
  from recorded_add [OF Cons.prems(1) _ girder_name_of_group [of eid], of ?tr]
  obtain s1 where s1: "record_trace ?g (add_trace ?tr s) = Inr s1" "recorded s1"
      "fig_data s1 = fig_data s @ [?tr]" "shown_in_legend s1 = shown_in_legend s"
      "element_count s1 = element_count s" "console s1 = console s"
    by auto
  have rest: "centerline_loop nodes ms s1 = Inr s'"
    using Cons.prems(2) unfolding m by (simp add: n s1(1) Let_def)
  from Cons.IH [OF s1(2) rest] obtain cs where
    cs: "recorded s'" "fig_data s' = fig_data s1 @ cs" "length cs = length ms"
        "\<forall>c \<in> set cs. is_Scatter3d c"
        "map tr_name cs = map (\<lambda>m. girder_name_of (fst m)) ms"
        "element_count s' = element_count s1"
        "shown_in_legend s' = shown_in_legend s1" "console s' = console s1"
    by blast
  show ?case
    using cs s1 by (intro conjI exI [of _ "?tr # cs"]) (simp_all add: m)
qed

lemma create_Inr:
  assumes "create_enhanced_3d_diagram ds nodes members rt segs = Inr (s, buttons)"
  shows "\<exists>s1. centerline_loop nodes members initial_builder = Inr s1
           \<and> s = surface_loop nodes ds (fst (components_of rt)) (snd (components_of rt))
                   (scale_factor rt (collect_values ds (fst (components_of rt))
                                       (snd (components_of rt)) (map fst members) []))
                   (collect_values ds (fst (components_of rt)) (snd (components_of rt))
                      (map fst members) [])
                   segs members s1
           \<and> make_buttons (girder_traces s) (length (fig_data s)) = Inr buttons"
  using assms
  by (auto simp: create_enhanced_3d_diagram_def Let_def split: prod.splits sum.splits)

lemma surface_loop_recorded:
  "recorded s \<Longrightarrow> recorded (surface_loop nodes ds ci cj scale av segs ms s)"
  using surface_loop_view [where f = "\<lambda>_. ()"]
  by (simp add: ribbon_traces_def split: prod.splits)

lemma create_recorded:
  assumes "create_enhanced_3d_diagram ds nodes members rt segs = Inr (s, buttons)"
  shows "recorded s"
proof -
  from create_Inr [OF assms] obtain s1 where
    s1: "centerline_loop nodes members initial_builder = Inr s1"
    and s: "s = surface_loop nodes ds (fst (components_of rt)) (snd (components_of rt))
                   (scale_factor rt (collect_values ds (fst (components_of rt))
                                       (snd (components_of rt)) (map fst members) []))
                   (collect_values ds (fst (components_of rt)) (snd (components_of rt))
                      (map fst members) [])
                   segs members s1"
    by blast
  have "recorded s1"
    using centerline_loop_recorded [OF recorded_initial s1] by blast
  then show ?thesis unfolding s by (rule surface_loop_recorded)
qed


lemma create_view:
  assumes run: "create_enhanced_3d_diagram ds nodes members rt segs = Inr (s, buttons)"
    and ins: "\<And>g eid p1 p2 v_i v_j pts tris lo hi a b.
      map f (ribbon_traces g eid p1 p2 v_i v_j (run_scale ds rt members) a pts tris lo hi b) =
      map f (ribbon_traces g eid p1 p2 v_i v_j (run_scale ds rt members) False pts tris lo hi False)"
  shows "length members \<le> length (fig_data s)
           \<and> (\<forall>c \<in> set (take (length members) (fig_data s)). is_Scatter3d c)
           \<and> map tr_name (take (length members) (fig_data s)) =
               map (\<lambda>m. girder_name_of (fst m)) members
           \<and> map f (drop (length members) (fig_data s)) =
               concat (map (\<lambda>m. case run_ribbon nodes ds rt segs members m of
                                   Inl _ \<Rightarrow> [] | Inr trs \<Rightarrow> map f trs) members)"
proof -
  from create_Inr [OF run] obtain s1 where
    s1: "centerline_loop nodes members initial_builder = Inr s1"
    and s: "s = surface_loop nodes ds (fst (components_of rt)) (snd (components_of rt))
                   (run_scale ds rt members) (run_values ds rt members) segs members s1"
    unfolding run_scale_def run_values_def by blast
  from centerline_loop_recorded [OF recorded_initial s1] obtain cs where
    cs: "recorded s1" "fig_data s1 = cs" "length cs = length members"
        "\<forall>c \<in> set cs. is_Scatter3d c"
        "map tr_name cs = map (\<lambda>m. girder_name_of (fst m)) members"
    by (auto simp: initial_builder_def)
  from surface_loop_view [where f = f, OF ins cs(1)] obtain rest where
    rest: "fig_data s = cs @ rest"
      "map f rest = concat (map (\<lambda>m. case run_ribbon nodes ds rt segs members m of
                                   Inl _ \<Rightarrow> [] | Inr trs \<Rightarrow> map f trs) members)"
    unfolding s run_ribbon_def cs(2) by blast
  show ?thesis
    using cs(3,4,5) rest by simp
qed

lemma set_visible_eq:
  "\<forall>i \<in> set idxs. i < length vis \<Longrightarrow>
   set_visible idxs vis = Inr (map (\<lambda>k. vis ! k \<or> k \<in> set idxs) [0..<length vis])"
proof (induction idxs arbitrary: vis)
  case Nil
  show ?case by (simp add: map_nth)
next
  case (Cons idx idxs)
  have "\<forall>i \<in> set idxs. i < length (vis[idx := True])" using Cons.prems by simp
  from Cons.IH [OF this] show ?case
    using Cons.prems by (auto simp: nth_list_update)
qed

lemma set_visible_fresh:
  "\<forall>i \<in> set idxs. i < n \<Longrightarrow>
   set_visible idxs (replicate n False) = Inr (map (\<lambda>k. k \<in> set idxs) [0..<n])"
  using set_visible_eq [of idxs "replicate n False"] by simp

lemma girder_buttons_eq:
  assumes "\<forall>g \<in> set names. \<exists>idxs. traces g = Some idxs \<and> (\<forall>i \<in> set idxs. i < n)"
  shows "girder_buttons traces n names bs =
           Inr (bs @ map (\<lambda>g. group_button traces n g g) names)"
  using assms
proof (induction names arbitrary: bs)
  case Nil
  show ?case by simp
next
  case (Cons g names)
  from Cons.prems obtain idxs where
    idxs: "traces g = Some idxs" "\<forall>i \<in> set idxs. i < n"
    by auto
  have rest: "\<forall>g \<in> set names. \<exists>idxs. traces g = Some idxs \<and> (\<forall>i \<in> set idxs. i < n)"
    using Cons.prems by simp
  show ?case
    by (simp add: idxs(1) set_visible_fresh [OF idxs(2)] Cons.IH [OF rest] group_button_def)
qed

lemma make_buttons_eq:
  assumes "\<forall>g \<in> group_names. \<exists>idxs. traces g = Some idxs \<and> (\<forall>i \<in> set idxs. i < n)"
  shows "make_buttons traces n =
     Inr (\<lparr>label = ''All Girders'', visible = replicate n True\<rparr>
          # map (\<lambda>g. group_button traces n g g)
                [''Girder 1'', ''Girder 2'', ''Girder 3'', ''Girder 4'', ''Girder 5'']
          @ (if the (traces ''Other Elements'') \<noteq> []
             then [group_button traces n ''Other Elements'' ''Transverse Only''] else []))"
proof -
  have five: "\<forall>g \<in> set [''Girder 1'', ''Girder 2'', ''Girder 3'', ''Girder 4'', ''Girder 5''].
                \<exists>idxs. traces g = Some idxs \<and> (\<forall>i \<in> set idxs. i < n)"
    using assms by (simp add: group_names_def)
  obtain idxs where o: "traces ''Other Elements'' = Some idxs" "\<forall>i \<in> set idxs. i < n"
    using assms by (auto simp: group_names_def)
  show ?thesis
    unfolding make_buttons_def Let_def girder_buttons_eq [OF five]
    by (simp add: o(1) set_visible_fresh [OF o(2)] group_button_def)
qed

lemma recorded_buttons:
  assumes "recorded s"
  shows "\<forall>g \<in> group_names. \<exists>idxs. girder_traces s g = Some idxs
           \<and> (\<forall>i \<in> set idxs. i < length (fig_data s))"
  using assms by (auto simp: recorded_def)

lemma centerline_loop_succeeds:
  "recorded s \<Longrightarrow> \<forall>m \<in> set ms. fst (snd m) \<in> dom nodes \<and> snd (snd m) \<in> dom nodes \<Longrightarrow>
   \<exists>s'. centerline_loop nodes ms s = Inr s'"
proof (induction ms arbitrary: s)
  case Nil
  show ?case by simp
next
  case (Cons m ms)
  obtain eid ni nj where m: "m = (eid, ni, nj)" by (cases m)
  from Cons.prems(2) obtain x1 y1 z1 x2 y2 z2 where
    n: "nodes ni = Some (x1, y1, z1)" "nodes nj = Some (x2, y2, z2)"
    unfolding m by fastforce
  let ?g = "girder_name_of eid"
  let ?tr = "Scatter3d [x1, x2] [y1, y2] [z1, z2] 6 ?g ?g"
  from recorded_add [OF Cons.prems(1) _ girder_name_of_group [of eid], of ?tr]
  obtain s1 where s1: "record_trace ?g (add_trace ?tr s) = Inr s1" "recorded s1"
    by auto
  have rest: "\<forall>m \<in> set ms. fst (snd m) \<in> dom nodes \<and> snd (snd m) \<in> dom nodes"
    using Cons.prems(2) by simp
  from Cons.IH [OF s1(2) rest] show ?case
    unfolding m by (simp add: n s1(1) Let_def)
qed

lemma create_succeeds:
  assumes "\<forall>m \<in> set members. fst (snd m) \<in> dom nodes \<and> snd (snd m) \<in> dom nodes"
  shows "\<exists>s buttons. create_enhanced_3d_diagram ds nodes members rt segs = Inr (s, buttons)"
proof -
  from centerline_loop_succeeds [OF recorded_initial assms] obtain s1 where
    s1: "centerline_loop nodes members initial_builder = Inr s1" by blast
  then have r1: "recorded s1"
    using centerline_loop_recorded [OF recorded_initial] by blast
  obtain ci cj where c: "components_of rt = (ci, cj)" by (cases "components_of rt")
  let ?av = "collect_values ds ci cj (map fst members) []"
  let ?s2 = "surface_loop nodes ds ci cj (scale_factor rt ?av) ?av segs members s1"
  have "recorded ?s2" using r1 by (rule surface_loop_recorded)
  from make_buttons_eq [OF recorded_buttons [OF this]] obtain b where
    "make_buttons (girder_traces ?s2) (length (fig_data ?s2)) = Inr b" by blast
  then show ?thesis
    by (simp add: create_enhanced_3d_diagram_def c s1 Let_def)
qed

lemma members_two_nodes:
  "\<forall>m \<in> set members_two. fst (snd m) \<in> dom nodes_line \<and> snd (snd m) \<in> dom nodes_line"
  by (simp add: members_two_def nodes_line_def)

text \<open>
  Claim C9, as the code has it. The buttons of a run are: first the show-all button, which
  sets every trace visible; then one button for each of the five girders, whose visibility
  flag at index \<open>k\<close> is true exactly when \<open>k\<close> is recorded for that girder;
  and last, only when at least one index is recorded for the group of other elements, the
  transverse-only button, whose flag is true exactly at the indices recorded for that
  group.
\<close>

theorem visibility_buttons:
  assumes "create_enhanced_3d_diagram ds nodes members rt segs = Inr (s, buttons)"
  shows "buttons =
     \<lparr>label = ''All Girders'', visible = replicate (length (fig_data s)) True\<rparr>
     # map (\<lambda>g. group_button (girder_traces s) (length (fig_data s)) g g)
           [''Girder 1'', ''Girder 2'', ''Girder 3'', ''Girder 4'', ''Girder 5'']
     @ (if the (girder_traces s ''Other Elements'') \<noteq> []
        then [group_button (girder_traces s) (length (fig_data s))
                ''Other Elements'' ''Transverse Only'']
        else [])"
proof -
  have r: "recorded s" using assms by (rule create_recorded)
  from create_Inr [OF assms] have
    "make_buttons (girder_traces s) (length (fig_data s)) = Inr buttons" by blast
  then show ?thesis
    unfolding make_buttons_eq [OF recorded_buttons [OF r]] by simp
qed

text \<open>
  The theorem on a run with one girder element and one transverse element.
\<close>

theorem visibility_buttons_witness:
  "\<exists>s buttons. create_enhanced_3d_diagram ds_two nodes_line members_two ''BMD'' 1 = Inr (s, buttons)
     \<and> buttons =
         \<lparr>label = ''All Girders'', visible = replicate (length (fig_data s)) True\<rparr>
         # map (\<lambda>g. group_button (girder_traces s) (length (fig_data s)) g g)
               [''Girder 1'', ''Girder 2'', ''Girder 3'', ''Girder 4'', ''Girder 5'']
         @ (if the (girder_traces s ''Other Elements'') \<noteq> []
            then [group_button (girder_traces s) (length (fig_data s))
                    ''Other Elements'' ''Transverse Only'']
            else [])"
proof -
  from create_succeeds [OF members_two_nodes, of ds_two "''BMD''" 1] obtain s buttons where
    run: "create_enhanced_3d_diagram ds_two nodes_line members_two ''BMD'' 1 = Inr (s, buttons)"
    by blast
  from visibility_buttons [OF run] run show ?thesis by blast
qed

text \<open>
  The claim as it is written fails on a model whose only element belongs to Girder 1: no
  trace is recorded for the other elements, and the run has six buttons, none of them the
  transverse-only button.
\<close>

theorem transverse_button_counterexample:
  "map label (buttons_of (create_enhanced_3d_diagram ds_girder nodes_line [(13, 1, 2)] ''BMD'' 1))
     = [''All Girders'', ''Girder 1'', ''Girder 2'', ''Girder 3'', ''Girder 4'', ''Girder 5'']"
  by code_simp

text \<open>
  The labels and flags of the buttons of the run with two elements, evaluated.
\<close>

lemma buttons_two:
  "map label (buttons_of (create_enhanced_3d_diagram ds_two nodes_line members_two ''BMD'' 1))
     = [''All Girders'', ''Girder 1'', ''Girder 2'', ''Girder 3'', ''Girder 4'', ''Girder 5'',
        ''Transverse Only'']
   \<and> map visible (buttons_of (create_enhanced_3d_diagram ds_two nodes_line members_two ''BMD'' 1))
     = [replicate 10 True,
        [True, False, True, True, True, True, False, False, False, False],
        replicate 10 False, replicate 10 False, replicate 10 False, replicate 10 False,
        [False, True, False, False, False, False, True, True, True, True]]"
  by code_simp



section \<open>Properties of the ribbon and of failing runs\<close>

lemma mesh_points_eq:
  "mesh_points (x1, y1, z1) (x2, y2, z2) v_i v_j scale segments =
     (if segments = 0 then Inl ZeroDivisionError
      else Inr
       (concat (map (\<lambda>i. [interpolate x1 x2 (real i / real_of_int segments),
                            interpolate x1 x2 (real i / real_of_int segments)])
                  (py_range (segments + 1))),
        concat (map (\<lambda>i. [interpolate y1 y2 (real i / real_of_int segments),
                            interpolate y1 y2 (real i / real_of_int segments)
                              + interpolate v_i v_j (real i / real_of_int segments) * scale])
                  (py_range (segments + 1))),
        concat (map (\<lambda>i. [interpolate z1 z2 (real i / real_of_int segments),
                            interpolate z1 z2 (real i / real_of_int segments)])
                  (py_range (segments + 1))),
        concat (map (\<lambda>i. [\<bar>interpolate v_i v_j (real i / real_of_int segments)\<bar>,
                            \<bar>interpolate v_i v_j (real i / real_of_int segments)\<bar>])
                  (py_range (segments + 1)))))"
proof (cases "segments = 0")
  case True
  then show ?thesis by (simp add: mesh_points_def py_range_def)
next
  case False
  then show ?thesis
    unfolding mesh_points_def using mesh_points_loop_eq [OF False, where X = "[]"] by simp
qed

lemma triangles_eq:
  "triangles segments =
     (concat (map (\<lambda>i. [i * 2, i * 2 + 1]) (py_range segments)),
      concat (map (\<lambda>i. [i * 2 + 1, i * 2 + 3]) (py_range segments)),
      concat (map (\<lambda>i. [i * 2 + 2, i * 2 + 2]) (py_range segments)))"
  by (simp add: triangles_def triangle_loop_eq)

lemma nth_concat_pairs_half:
  assumes "t < 2 * length ks"
  shows "concat (map (\<lambda>i. [f i, g i]) ks) ! t =
           (if even t then f (ks ! (t div 2)) else g (ks ! (t div 2)))"
proof -
  have h: "t div 2 < length ks" using assms by simp
  show ?thesis
  proof (cases "even t")
    case True
    then have "t = 2 * (t div 2)" by simp
    then show ?thesis
      using nth_concat_pairs [OF h, of f g] True by metis
  next
    case False
    then have "t = 2 * (t div 2) + 1" by presburger
    then show ?thesis
      using nth_concat_pairs [OF h, of f g] False by metis
  qed
qed

lemma py_range_nat: "py_range (int n) = [0..<n]"
  by (simp add: py_range_def)

lemma triangles_counts:
  assumes "triangles (int S) = (I, J, K)"
  shows "length I = 2 * S \<and> length J = 2 * S \<and> length K = 2 * S
       \<and> (\<forall>t < 2 * S. I ! t < 2 * (S + 1) \<and> J ! t < 2 * (S + 1) \<and> K ! t < 2 * (S + 1))
       \<and> (\<forall>q < S. I ! (2 * q) = 2 * q \<and> J ! (2 * q) = 2 * q + 1 \<and> K ! (2 * q) = 2 * q + 2
                  \<and> I ! (2 * q + 1) = 2 * q + 1 \<and> J ! (2 * q + 1) = 2 * q + 3
                  \<and> K ! (2 * q + 1) = 2 * q + 2)"
proof -
  have I: "I = concat (map (\<lambda>i. [i * 2, i * 2 + 1]) [0..<S])"
    and J: "J = concat (map (\<lambda>i. [i * 2 + 1, i * 2 + 3]) [0..<S])"
    and K: "K = concat (map (\<lambda>i. [i * 2 + 2, i * 2 + 2]) [0..<S])"
    using assms by (simp_all add: triangles_eq py_range_nat)
  have len: "length I = 2 * S" "length J = 2 * S" "length K = 2 * S"
    by (simp_all add: I J K length_concat_pairs)
  have pair: "I ! (2 * q) = 2 * q \<and> J ! (2 * q) = 2 * q + 1 \<and> K ! (2 * q) = 2 * q + 2
            \<and> I ! (2 * q + 1) = 2 * q + 1 \<and> J ! (2 * q + 1) = 2 * q + 3
            \<and> K ! (2 * q + 1) = 2 * q + 2" if "q < S" for q
  proof -
    have q: "q < length [0..<S]" using that by simp
    show ?thesis
      unfolding I J K
      using nth_concat_pairs [OF q, of "\<lambda>i. i * 2" "\<lambda>i. i * 2 + 1"]
            nth_concat_pairs [OF q, of "\<lambda>i. i * 2 + 1" "\<lambda>i. i * 2 + 3"]
            nth_concat_pairs [OF q, of "\<lambda>i. i * 2 + 2" "\<lambda>i. i * 2 + 2"] that
      by (simp add: mult.commute)
  qed
  have bound: "I ! t < 2 * (S + 1) \<and> J ! t < 2 * (S + 1) \<and> K ! t < 2 * (S + 1)"
    if "t < 2 * S" for t
  proof -
    define q where "q = t div 2"
    have q: "q < S" using that by (simp add: q_def)
    have "t = 2 * q \<or> t = 2 * q + 1" unfolding q_def by presburger
    then show ?thesis
    proof
      assume "t = 2 * q"
      then show ?thesis using pair [OF q] q by simp
    next
      assume "t = 2 * q + 1"
      then show ?thesis using pair [OF q] q by simp
    qed
  qed
  show ?thesis using len pair bound by blast
qed

lemma concat_all_true:
  "(\<And>x. \<forall>b \<in> set (F x). b) \<Longrightarrow> \<forall>b \<in> set (concat (map F xs)). b"
  by auto

lemma ribbon_mesh_ok:
  assumes "1 \<le> segs" and "mesh_points p1 p2 v_i v_j scale segs = Inr pts"
  shows "\<forall>tr \<in> set (ribbon_traces g eid p1 p2 v_i v_j scale a pts (triangles segs) lo hi b).
           mesh_counts_ok (nat segs) tr"
proof -
  obtain x1 y1 z1 where p1: "p1 = (x1, y1, z1)" by (cases p1)
  obtain x2 y2 z2 where p2: "p2 = (x2, y2, z2)" by (cases p2)
  obtain X Y Z C where pts: "pts = (X, Y, Z, C)" by (cases pts)
  obtain I J K where tris: "triangles segs = (I, J, K)" by (cases "triangles segs")
  have n: "length (py_range (segs + 1)) = nat segs + 1"
    using assms(1) by (simp add: py_range_def nat_add_distrib)
  have len: "length X = 2 * (nat segs + 1)" "length Y = 2 * (nat segs + 1)"
    "length Z = 2 * (nat segs + 1)" "length C = 2 * (nat segs + 1)"
    using assms unfolding p1 p2 pts mesh_points_eq
    by (auto simp: length_concat_pairs n split: if_splits)
  have "triangles (int (nat segs)) = (I, J, K)" using tris assms(1) by simp
  note tc = triangles_counts [OF this]
  show ?thesis
    unfolding p1 p2 pts tris ribbon_traces_def
    using len tc by (simp add: mesh_counts_ok_def)
qed

text \<open>
  Claim C5. In the figure of a run with \<open>segments = S\<close>, \<open>S\<close> at least 1,
  every mesh has \<open>2 * (S + 1)\<close> vertices (coordinates and intensities alike) and
  \<open>2 * S\<close> triangles, two per segment sharing an edge, and every triangle index is
  below \<open>2 * (S + 1)\<close>.
\<close>

theorem ribbon_mesh_counts:
  assumes "1 \<le> segs"
    and "create_enhanced_3d_diagram ds nodes members rt segs = Inr (s, buttons)"
  shows "\<forall>tr \<in> set (fig_data s). mesh_counts_ok (nat segs) tr"
proof
  fix tr assume tr: "tr \<in> set (fig_data s)"
  let ?f = "mesh_counts_ok (nat segs)"
  have ins: "map ?f (ribbon_traces g eid p1 p2 v_i v_j (run_scale ds rt members) a pts tris lo hi b) =
             map ?f (ribbon_traces g eid p1 p2 v_i v_j (run_scale ds rt members) False pts tris
                       lo hi False)"
    for g eid p1 p2 v_i v_j pts tris lo hi a b
    by (cases p1, cases p2, cases pts, cases tris)
       (simp add: ribbon_traces_def mesh_counts_ok_def)
  have v: "\<forall>c \<in> set (take (length members) (fig_data s)). is_Scatter3d c"
    "map ?f (drop (length members) (fig_data s)) =
       concat (map (\<lambda>m. case run_ribbon nodes ds rt segs members m of
                            Inl _ \<Rightarrow> [] | Inr trs \<Rightarrow> map ?f trs) members)"
    using create_view [where f = ?f, OF assms(2) ins] by blast+
  have all: "\<forall>b \<in> set (map ?f (drop (length members) (fig_data s))). b"
  proof -
    have "\<forall>b \<in> set (map ?f trs). b"
      if "run_ribbon nodes ds rt segs members m = Inr trs" for m trs
    proof -
      obtain eid ni nj where m: "m = (eid, ni, nj)" by (cases m)
      from that show ?thesis
        unfolding run_ribbon_def m element_ribbon_Inr
        using ribbon_mesh_ok [OF assms(1)] by auto
    qed
    then have "\<forall>b \<in> set (case run_ribbon nodes ds rt segs members m of
                          Inl _ \<Rightarrow> [] | Inr trs \<Rightarrow> map ?f trs). b" for m
      by (cases "run_ribbon nodes ds rt segs members m") simp_all
    then show ?thesis unfolding v(2) by (intro concat_all_true)
  qed
  from tr have "tr \<in> set (take (length members) (fig_data s))
             \<or> tr \<in> set (drop (length members) (fig_data s))"
    by (metis Un_iff append_take_drop_id set_append)
  then show "?f tr"
  proof
    assume "tr \<in> set (take (length members) (fig_data s))"
    then have "is_Scatter3d tr" using v(1) by blast
    then show ?thesis by (simp add: mesh_counts_ok_def is_mesh_def)
  next
    assume "tr \<in> set (drop (length members) (fig_data s))"
    then show ?thesis using all by auto
  qed
qed

text \<open>
  The theorem on the run with two elements and two segments; the first mesh is trace 2.
\<close>

theorem ribbon_mesh_counts_witness:
  "\<exists>s buttons. create_enhanced_3d_diagram ds_two nodes_line members_two ''BMD'' 2 = Inr (s, buttons)
     \<and> (\<forall>tr \<in> set (fig_data s). mesh_counts_ok 2 tr)
     \<and> is_mesh (fig_data s ! 2)
     \<and> length (tr_x (fig_data s ! 2)) = 6
     \<and> mesh_i (fig_data s ! 2) = [0, 1, 2, 3]
     \<and> mesh_j (fig_data s ! 2) = [1, 3, 3, 5]
     \<and> mesh_k (fig_data s ! 2) = [2, 2, 4, 4]"
proof -
  from create_succeeds [OF members_two_nodes, of ds_two "''BMD''" 2] obtain s buttons where
    run: "create_enhanced_3d_diagram ds_two nodes_line members_two ''BMD'' 2 = Inr (s, buttons)"
    by blast
  have "is_mesh (figure_of (create_enhanced_3d_diagram ds_two nodes_line members_two ''BMD'' 2) ! 2)"
    and "length (tr_x (figure_of
           (create_enhanced_3d_diagram ds_two nodes_line members_two ''BMD'' 2) ! 2)) = 6"
    and "mesh_i (figure_of
           (create_enhanced_3d_diagram ds_two nodes_line members_two ''BMD'' 2) ! 2) = [0, 1, 2, 3]"
    and "mesh_j (figure_of
           (create_enhanced_3d_diagram ds_two nodes_line members_two ''BMD'' 2) ! 2) = [1, 3, 3, 5]"
    and "mesh_k (figure_of
           (create_enhanced_3d_diagram ds_two nodes_line members_two ''BMD'' 2) ! 2) = [2, 2, 4, 4]"
    by code_simp+
  then have c: "is_mesh (fig_data s ! 2)" "length (tr_x (fig_data s ! 2)) = 6"
    "mesh_i (fig_data s ! 2) = [0, 1, 2, 3]" "mesh_j (fig_data s ! 2) = [1, 3, 3, 5]"
    "mesh_k (fig_data s ! 2) = [2, 2, 4, 4]"
    unfolding run by (simp_all add: figure_of_def)
  have one: "(1::int) \<le> 2" by simp
  have t: "\<forall>tr \<in> set (fig_data s). mesh_counts_ok 2 tr"
    using ribbon_mesh_counts [OF one run] by simp
  show ?thesis
    by (intro exI [of _ s] exI [of _ buttons] conjI) (rule run t c)+
qed




lemma create_aborts:
  assumes "\<exists>m \<in> set members. fst (snd m) \<notin> dom nodes \<or> snd (snd m) \<notin> dom nodes"
  shows "create_enhanced_3d_diagram ds nodes members rt segs = Inl KeyError"
proof -
  have loop: "recorded s \<Longrightarrow>
       \<exists>m \<in> set ms. fst (snd m) \<notin> dom nodes \<or> snd (snd m) \<notin> dom nodes \<Longrightarrow>
       centerline_loop nodes ms s = Inl KeyError" for ms s
  proof (induction ms arbitrary: s)
    case Nil
    then show ?case by simp
  next
    case (Cons m ms)
    obtain eid ni nj where m: "m = (eid, ni, nj)" by (cases m)
    show ?case
    proof (cases "ni \<in> dom nodes \<and> nj \<in> dom nodes")
      case False
      then show ?thesis unfolding m by (auto split: option.splits)
    next
      case True
      then obtain x1 y1 z1 x2 y2 z2 where
        n: "nodes ni = Some (x1, y1, z1)" "nodes nj = Some (x2, y2, z2)"
        by fastforce
      let ?g = "girder_name_of eid"
      let ?tr = "Scatter3d [x1, x2] [y1, y2] [z1, z2] 6 ?g ?g"
      from recorded_add [OF Cons.prems(1) _ girder_name_of_group [of eid], of ?tr]
      obtain s1 where s1: "record_trace ?g (add_trace ?tr s) = Inr s1" "recorded s1"
        by auto
      have rest: "\<exists>m \<in> set ms. fst (snd m) \<notin> dom nodes \<or> snd (snd m) \<notin> dom nodes"
        using Cons.prems(2) True unfolding m by auto
      from Cons.IH [OF s1(2) rest] show ?thesis
        unfolding m by (simp add: n s1(1) Let_def)
    qed
  qed
  obtain ci cj where c: "components_of rt = (ci, cj)" by (cases "components_of rt")
  show ?thesis
    by (simp add: create_enhanced_3d_diagram_def c Let_def loop [OF recorded_initial assms])
qed

text \<open>
  Claim C6 fails on a member with a bad node reference: the centerline loop looks the
  nodes up outside any \<open>try\<close>, so the KeyError ends the whole run before the
  surface loop, whose \<open>try\<close> would have skipped the element, is reached. The
  second member, which is sound, is never processed.
\<close>

theorem bad_node_reference_aborts:
  "create_enhanced_3d_diagram ds_two nodes_line members_bad_node ''BMD'' 50 = Inl KeyError"
  by (rule create_aborts) (simp add: members_bad_node_def nodes_line_def)

end
